theory Spec2Isabelle
  imports Main "HOL-Library.Sublist"
begin

section \<open>Go strings\<close>

text \<open>
  A Go string is a sequence of bytes; \<open>len\<close> counts bytes and \<open>s[i]\<close> reads one.
  Isabelle's \<open>string\<close> is a list of 8-bit characters, so the two agree. The functions
  of package \<open>strings\<close> that the plugin calls are written out below the way the
  standard library documents them.
\<close>

subsection \<open>Prefixes, suffixes, searching\<close>

fun HasPrefix :: "string \<Rightarrow> string \<Rightarrow> bool" where
  "HasPrefix s [] = True"
| "HasPrefix [] (p # ps) = False"
| "HasPrefix (c # cs) (p # ps) = (c = p \<and> HasPrefix cs ps)"

definition HasSuffix :: "string \<Rightarrow> string \<Rightarrow> bool" where
  "HasSuffix s suf = HasPrefix (rev s) (rev suf)"

definition TrimPrefix :: "string \<Rightarrow> string \<Rightarrow> string" where
  "TrimPrefix s p = (if HasPrefix s p then drop (length p) s else s)"

definition TrimSuffix :: "string \<Rightarrow> string \<Rightarrow> string" where
  "TrimSuffix s suf = (if HasSuffix s suf then take (length s - length suf) s else s)"

text \<open>
  \<open>strings.Index(s, sub)\<close>: the index of the first occurrence of \<open>sub\<close> in \<open>s\<close>;
  \<open>None\<close> stands for Go's \<open>-1\<close>.
\<close>

fun Index :: "string \<Rightarrow> string \<Rightarrow> nat option" where
  "Index [] sub = (if sub = [] then Some 0 else None)"
| "Index (c # cs) sub =
     (if HasPrefix (c # cs) sub then Some 0 else map_option Suc (Index cs sub))"

definition Contains :: "string \<Rightarrow> string \<Rightarrow> bool" where
  "Contains s sub = (Index s sub \<noteq> None)"

text \<open>The slice expression \<open>s[i:j]\<close>, for \<open>i \<le> j \<le> len(s)\<close>.\<close>

definition slice :: "string \<Rightarrow> nat \<Rightarrow> nat \<Rightarrow> string" where
  "slice s i j = take (j - i) (drop i s)"

subsection \<open>Facts about searching\<close>

lemma HasPrefix_prefix: "HasPrefix s p = prefix p s"
  by (induction s p rule: HasPrefix.induct) auto

lemma HasPrefix_append: "HasPrefix (p @ s) p"
  by (simp add: HasPrefix_prefix)

lemma HasPrefix_take: "HasPrefix s p \<Longrightarrow> take (length p) s = p"
  by (auto simp: HasPrefix_prefix prefix_def)

lemma HasPrefix_length: "HasPrefix s p \<Longrightarrow> length p \<le> length s"
  by (simp add: HasPrefix_prefix prefix_length_le)

lemma Index_bound: "Index s sub = Some i \<Longrightarrow> i + length sub \<le> length s"
proof (induction s arbitrary: i)
  case Nil
  then show ?case by (simp split: if_splits)
next
  case (Cons c cs)
  show ?case
  proof (cases "HasPrefix (c # cs) sub")
    case True
    with Cons.prems have "i = 0" by simp
    with True show ?thesis using HasPrefix_length by fastforce
  next
    case False
    with Cons.prems obtain j where "Index cs sub = Some j" "i = Suc j" by auto
    with Cons.IH show ?thesis by simp
  qed
qed

lemma Index_occurs: "Index s sub = Some i \<Longrightarrow> HasPrefix (drop i s) sub"
proof (induction s arbitrary: i)
  case Nil
  then show ?case by (simp split: if_splits)
next
  case (Cons c cs)
  show ?case
  proof (cases "HasPrefix (c # cs) sub")
    case True
    with Cons.prems show ?thesis by simp
  next
    case False
    with Cons.prems obtain j where "Index cs sub = Some j" "i = Suc j" by auto
    with Cons.IH show ?thesis by simp
  qed
qed

lemma Index_split:
  assumes "Index s sub = Some i"
  shows "s = take i s @ sub @ drop (i + length sub) s"
proof -
  have "take (length sub) (drop i s) = sub"
    using assms Index_occurs HasPrefix_take by blast
  then have "drop i s = sub @ drop (length sub) (drop i s)"
    by (metis append_take_drop_id)
  then have "drop i s = sub @ drop (i + length sub) s"
    by (simp add: add.commute)
  then show ?thesis
    by (metis append_take_drop_id)
qed

text \<open>A string that occurs nowhere is not found, and a found string occurs.\<close>

lemma Index_None_iff: "Index s sub = None \<longleftrightarrow> (\<forall>i \<le> length s. \<not> HasPrefix (drop i s) sub)"
proof (induction s)
  case Nil
  then show ?case by (cases sub) auto
next
  case (Cons c cs)
  show ?case
  proof (cases "HasPrefix (c # cs) sub")
    case True
    then show ?thesis by force
  next
    case False
    have "(\<forall>i \<le> length (c # cs). \<not> HasPrefix (drop i (c # cs)) sub)
          \<longleftrightarrow> (\<forall>j \<le> length cs. \<not> HasPrefix (drop j cs) sub)"
    proof
      assume a: "\<forall>i \<le> length (c # cs). \<not> HasPrefix (drop i (c # cs)) sub"
      show "\<forall>j \<le> length cs. \<not> HasPrefix (drop j cs) sub"
      proof (intro allI impI)
        fix j assume "j \<le> length cs"
        then have "Suc j \<le> length (c # cs)" by simp
        with a have "\<not> HasPrefix (drop (Suc j) (c # cs)) sub" by blast
        then show "\<not> HasPrefix (drop j cs) sub" by simp
      qed
    next
      assume a: "\<forall>j \<le> length cs. \<not> HasPrefix (drop j cs) sub"
      show "\<forall>i \<le> length (c # cs). \<not> HasPrefix (drop i (c # cs)) sub"
      proof (intro allI impI)
        fix i assume i: "i \<le> length (c # cs)"
        show "\<not> HasPrefix (drop i (c # cs)) sub"
        proof (cases i)
          case 0
          with False show ?thesis by simp
        next
          case (Suc j)
          with i a show ?thesis by simp
        qed
      qed
    qed
    with False Cons.IH show ?thesis by simp
  qed
qed

subsection \<open>Trimming\<close>

text \<open>
  \<open>strings.TrimSpace\<close> removes leading and trailing white space as Unicode defines
  it (\<open>unicode.IsSpace\<close>). On the bytes of a string these are the six ASCII characters
  tab, line feed, vertical tab, form feed, carriage return and space, and the UTF-8
  encodings of U+0085, U+00A0, U+1680, U+2000 to U+200A, U+2028, U+2029, U+202F,
  U+205F and U+3000.
\<close>

definition spaceRunes :: "string list" where
  "spaceRunes =
    [[CHR 0x09], [CHR 0x0A], [CHR 0x0B], [CHR 0x0C], [CHR 0x0D], [CHR 0x20],
     [CHR 0xC2, CHR 0x85], [CHR 0xC2, CHR 0xA0],
     [CHR 0xE1, CHR 0x9A, CHR 0x80],
     [CHR 0xE2, CHR 0x80, CHR 0x80], [CHR 0xE2, CHR 0x80, CHR 0x81],
     [CHR 0xE2, CHR 0x80, CHR 0x82], [CHR 0xE2, CHR 0x80, CHR 0x83],
     [CHR 0xE2, CHR 0x80, CHR 0x84], [CHR 0xE2, CHR 0x80, CHR 0x85],
     [CHR 0xE2, CHR 0x80, CHR 0x86], [CHR 0xE2, CHR 0x80, CHR 0x87],
     [CHR 0xE2, CHR 0x80, CHR 0x88], [CHR 0xE2, CHR 0x80, CHR 0x89],
     [CHR 0xE2, CHR 0x80, CHR 0x8A],
     [CHR 0xE2, CHR 0x80, CHR 0xA8], [CHR 0xE2, CHR 0x80, CHR 0xA9],
     [CHR 0xE2, CHR 0x80, CHR 0xAF],
     [CHR 0xE2, CHR 0x81, CHR 0x9F],
     [CHR 0xE3, CHR 0x80, CHR 0x80]]"

lemma find_Some_mem: "find P xs = Some x \<Longrightarrow> x \<in> set xs \<and> P x"
  by (induction xs) (auto split: if_splits)

text \<open>
  \<open>trimLeftRunes\<close> removes leading occurrences of the given byte sequences for as
  long as one of them is a prefix. Trailing white space is leading white space of the
  reversed string, with the encodings read backwards.
\<close>

function trimLeftRunes :: "string list \<Rightarrow> string \<Rightarrow> string" where
  "trimLeftRunes runes s =
     (case find (\<lambda>r. r \<noteq> [] \<and> HasPrefix s r) runes of
        None \<Rightarrow> s
      | Some r \<Rightarrow> trimLeftRunes runes (drop (length r) s))"
  by pat_completeness auto
termination
proof (relation "measure (\<lambda>(runes, s). length s)")
  show "wf (measure (\<lambda>(runes, s). length s))" by simp
next
  fix runes :: "string list" and s r :: string
  assume "find (\<lambda>r. r \<noteq> [] \<and> HasPrefix s r) runes = Some r"
  then have "r \<noteq> []" "HasPrefix s r" using find_Some_mem by fastforce+
  then have "0 < length r" "length r \<le> length s" using HasPrefix_length by auto
  then show "((runes, drop (length r) s), (runes, s)) \<in> measure (\<lambda>(runes, s). length s)"
    by (cases r) auto
qed

declare trimLeftRunes.simps [simp del]

definition TrimSpace :: "string \<Rightarrow> string" where
  "TrimSpace s = rev (trimLeftRunes (map rev spaceRunes) (rev (trimLeftRunes spaceRunes s)))"

text \<open>
  \<open>strings.Trim\<close>, \<open>TrimLeft\<close> and \<open>TrimRight\<close> with a cutset of ASCII characters
  (the plugin passes \<open>"- "\<close> and \<open>" "\<close>): bytes of the cutset are removed from the ends.
\<close>

definition TrimLeft :: "string \<Rightarrow> string \<Rightarrow> string" where
  "TrimLeft s cutset = dropWhile (\<lambda>c. c \<in> set cutset) s"

definition TrimRight :: "string \<Rightarrow> string \<Rightarrow> string" where
  "TrimRight s cutset = rev (dropWhile (\<lambda>c. c \<in> set cutset) (rev s))"

definition Trim :: "string \<Rightarrow> string \<Rightarrow> string" where
  "Trim s cutset = TrimLeft (TrimRight s cutset) cutset"

subsection \<open>Splitting, joining, replacing\<close>

text \<open>
  \<open>strings.Split\<close> and \<open>strings.ReplaceAll\<close> find the occurrences of their pattern
  from left to right, without overlap, each search starting after the previous match.
  Every call site passes a non-empty literal pattern; for an empty one Go works on
  UTF-8 sequences, and the equations below work on bytes there.
\<close>

function Split :: "string \<Rightarrow> string \<Rightarrow> string list" where
  "Split s sep =
     (if sep = [] then map (\<lambda>c. [c]) s
      else case Index s sep of
             None \<Rightarrow> [s]
           | Some i \<Rightarrow> take i s # Split (drop (i + length sep) s) sep)"
  by pat_completeness auto
termination
proof (relation "measure (\<lambda>(s, sep). length s)")
  show "wf (measure (\<lambda>(s, sep). length s))" by simp
next
  fix s sep :: string and i
  assume "sep \<noteq> []" "Index s sep = Some i"
  then have "0 < length sep" "i + length sep \<le> length s" using Index_bound by auto
  then show "((drop (i + length sep) s, sep), (s, sep)) \<in> measure (\<lambda>(s, sep). length s)"
    by (cases sep) auto
qed

function ReplaceAll :: "string \<Rightarrow> string \<Rightarrow> string \<Rightarrow> string" where
  "ReplaceAll s old new =
     (if old = [] then new @ concat (map (\<lambda>c. c # new) s)
      else case Index s old of
             None \<Rightarrow> s
           | Some i \<Rightarrow> take i s @ new @ ReplaceAll (drop (i + length old) s) old new)"
  by pat_completeness auto
termination
proof (relation "measure (\<lambda>(s, old, new). length s)")
  show "wf (measure (\<lambda>(s, old, new). length s))" by simp
next
  fix s old new :: string and i
  assume "old \<noteq> []" "Index s old = Some i"
  then have "0 < length old" "i + length old \<le> length s" using Index_bound by auto
  then show "((drop (i + length old) s, old, new), (s, old, new))
        \<in> measure (\<lambda>(s, old, new). length s)"
    by (cases old) auto
qed

declare Split.simps [simp del] ReplaceAll.simps [simp del]

lemma ReplaceAll_unfold:
  "old \<noteq> [] \<Longrightarrow> ReplaceAll s old new =
     (case Index s old of
        None \<Rightarrow> s
      | Some i \<Rightarrow> take i s @ new @ ReplaceAll (drop (i + length old) s) old new)"
  by (subst ReplaceAll.simps) simp

lemma Split_unfold:
  "sep \<noteq> [] \<Longrightarrow> Split s sep =
     (case Index s sep of
        None \<Rightarrow> [s]
      | Some i \<Rightarrow> take i s # Split (drop (i + length sep) s) sep)"
  by (subst Split.simps) simp

fun Join :: "string list \<Rightarrow> string \<Rightarrow> string" where
  "Join [] sep = []"
| "Join [x] sep = x"
| "Join (x # y # ys) sep = x @ sep @ Join (y # ys) sep"

subsection \<open>Decimal formatting\<close>

text \<open>\<open>strconv.Itoa\<close> and \<open>strconv.FormatInt(_, 10)\<close>.\<close>

definition digitChar :: "nat \<Rightarrow> char" where
  "digitChar n = ''0123456789'' ! n"

fun natDec :: "nat \<Rightarrow> string" where
  "natDec n = (if n < 10 then [digitChar n] else natDec (n div 10) @ [digitChar (n mod 10)])"

declare natDec.simps [simp del]

definition Itoa :: "int \<Rightarrow> string" where
  "Itoa i = (if i < 0 then CHR ''-'' # natDec (nat (- i)) else natDec (nat i))"

section \<open>Status classification\<close>

text \<open>
  \<open>IsErrorStatus\<close> reads \<open>status[0]\<close>. An index out of range makes a Go program
  panic, so the read is modelled as an option and the function returns \<open>None\<close> where
  the program would panic.
\<close>

definition byte_at :: "string \<Rightarrow> nat \<Rightarrow> char option" where
  "byte_at s i = (if i < length s then Some (s ! i) else None)"

definition IsErrorStatus :: "string \<Rightarrow> bool option" where
  "IsErrorStatus status =
     (if length status \<noteq> 3 then Some False
      else case byte_at status 0 of
             None \<Rightarrow> None
           | Some c \<Rightarrow> Some (c = CHR ''4'' \<or> c = CHR ''5''))"

text \<open>
  The decimal-digit test of the status parser (\<open>c >= '0' && c <= '9'\<close>), on the
  byte's code.
\<close>

definition isDigit :: "char \<Rightarrow> bool" where
  "isDigit c = (48 \<le> (of_char c :: nat) \<and> (of_char c :: nat) \<le> 57)"

definition threeDigits :: "string \<Rightarrow> bool" where
  "threeDigits s = (length s = 3 \<and> list_all isDigit s)"

section \<open>Status catalogue\<close>

text \<open>
  The two map literals of \<open>getStatusMessage\<close> and \<open>getStatusDescription\<close>, as
  association lists in the order of the source; a lookup is \<open>map_of\<close>.
\<close>

definition messages :: "(int \<times> string) list" where
  "messages =
    [(400, ''Bad Request''),
     (401, ''Unauthorized''),
     (402, ''Payment Required''),
     (403, ''Forbidden''),
     (404, ''Not Found''),
     (405, ''Method Not Allowed''),
     (406, ''Not Acceptable''),
     (407, ''Proxy Authentication Required''),
     (408, ''Request Timeout''),
     (409, ''Conflict''),
     (410, ''Gone''),
     (411, ''Length Required''),
     (412, ''Precondition Failed''),
     (413, ''Payload Too Large''),
     (414, ''URI Too Long''),
     (415, ''Unsupported Media Type''),
     (416, ''Range Not Satisfiable''),
     (417, ''Expectation Failed''),
     (418, ''I'' @ [CHR 0x27] @ ''m a teapot''),
     (421, ''Misdirected Request''),
     (422, ''Unprocessable Entity''),
     (423, ''Locked''),
     (424, ''Failed Dependency''),
     (425, ''Too Early''),
     (426, ''Upgrade Required''),
     (428, ''Precondition Required''),
     (429, ''Too Many Requests''),
     (431, ''Request Header Fields Too Large''),
     (451, ''Unavailable For Legal Reasons''),
     (500, ''Internal Server Error''),
     (501, ''Not Implemented''),
     (502, ''Bad Gateway''),
     (503, ''Service Unavailable''),
     (504, ''Gateway Timeout''),
     (505, ''HTTP Version Not Supported''),
     (506, ''Variant Also Negotiates''),
     (507, ''Insufficient Storage''),
     (508, ''Loop Detected''),
     (510, ''Not Extended''),
     (511, ''Network Authentication Required'')]"

definition getStatusMessage :: "int \<Rightarrow> string" where
  "getStatusMessage code =
     (case map_of messages code of
        Some msg \<Rightarrow> msg
      | None \<Rightarrow> if code \<ge> 400 \<and> code < 500 then ''Client Error'' else ''Server Error'')"

definition descriptions :: "(int \<times> string) list" where
  "descriptions =
    [(400, ''The request could not be understood by the server due to malformed syntax.''),
     (401, ''The request requires user authentication.''),
     (403, ''The server understood the request, but is refusing to fulfill it.''),
     (404, ''The requested resource could not be found.''),
     (405, ''The method specified in the request is not allowed for the resource.''),
     (408, ''The server timed out waiting for the request.''),
     (429, ''Too many requests have been sent in a given amount of time.''),
     (500, ''The server encountered an unexpected condition that prevented it from fulfilling the request.''),
     (502, ''The server received an invalid response from the upstream server.''),
     (503, ''The server is currently unable to handle the request due to temporary overloading or maintenance.''),
     (504, ''The server did not receive a timely response from the upstream server.'')]"

definition getStatusDescription :: "int \<Rightarrow> string" where
  "getStatusDescription code =
     (case map_of descriptions code of
        Some desc \<Rightarrow> desc
      | None \<Rightarrow>
          if code \<ge> 400 \<and> code < 500 then ''An error occurred while processing your request.''
          else ''The server encountered an error while processing your request.'')"

section \<open>HTML escaping\<close>

text \<open>
  \<open>htmlEscape\<close> runs over a slice of five (old, new) pairs, in order, and applies
  \<open>strings.ReplaceAll\<close> with each to the result of the previous one.
\<close>

definition htmlReplacements :: "(string \<times> string) list" where
  "htmlReplacements =
    [(''&'', ''&amp;''),
     (''<'', ''&lt;''),
     (''>'', ''&gt;''),
     ([CHR 0x22], ''&quot;''),
     ([CHR 0x27], ''&#39;'')]"

definition htmlEscape :: "string \<Rightarrow> string" where
  "htmlEscape s = foldl (\<lambda>result (old, new). ReplaceAll result old new) s htmlReplacements"

text \<open>
  What escaping is meant to achieve, character by character: each of the five special
  characters becomes its entity, once, and every other character stays.
\<close>

definition escapeChar :: "char \<Rightarrow> string" where
  "escapeChar c =
     (if c = CHR ''&'' then ''&amp;''
      else if c = CHR ''<'' then ''&lt;''
      else if c = CHR ''>'' then ''&gt;''
      else if c = CHR 0x22 then ''&quot;''
      else if c = CHR 0x27 then ''&#39;''
      else [c])"

section \<open>Plugin configuration and template data\<close>

text \<open>
  The configuration record of package \<open>config\<close> and the \<open>TemplateData\<close> and
  \<open>Handler\<close> structs of package \<open>errorpages\<close>. Both \<open>Config\<close> and \<open>TemplateData\<close>
  have a field \<open>ShowDetails\<close>; where it matters the selector is written with its
  record's name. The handler's field \<open>template\<close> carries a prime, as \<open>template\<close> is
  also the name of a parameter of the functions below.
\<close>

record Config =
  Theme :: string
  ShowDetails :: bool

record TemplateData =
  Code :: int
  Message :: string
  Description :: string
  ShowDetails :: bool
  Host :: string
  OriginalURI :: string
  ForwardedFor :: string
  RequestID :: string
  NowUnix :: int
  L10nEnabled :: bool
  L10nScript :: string

record Handler =
  template' :: string
  version :: string

section \<open>The string-replacement renderer\<close>

text \<open>
  The handler that renders by string replacement: conditional blocks are cut out or
  unwrapped by searching for their markers, then every placeholder is replaced, then
  leftover markers and empty table rows are removed.
\<close>

subsection \<open>Conditional blocks\<close>

text \<open>
  \<open>processIfBlock\<close> tries six comment skins of the \<open>if\<close> marker in turn
  (\<open>patterns\<close>). For the first one that occurs in the text it looks for the matching
  end marker with a loop, here \<open>scanForEnd\<close>, which starts behind the opening marker at
  nesting level 1. The loop returns the index of the end marker, or \<open>None\<close> where the
  source leaves \<open>endIdx\<close> at \<open>-1\<close>. The nesting level is only decremented while it is
  positive, so it is a natural number.
\<close>

definition patterns :: "string \<Rightarrow> (string \<times> string) list" where
  "patterns condition =
    [(''<!-- {{- if '' @ condition @ '' -}} -->'', ''<!-- {{- end -}} -->''),
     (''<!-- {{ if '' @ condition @ '' }} -->'', ''<!-- {{ end }} -->''),
     (''<!-- {{- if '' @ condition @ '' }} -->'', ''<!-- {{ end }} -->''),
     (''<!-- {{ if '' @ condition @ '' -}} -->'', ''<!-- {{- end -}} -->''),
     (''<!-- {{if '' @ condition @ ''}} -->'', ''<!-- {{end}} -->''),
     (''<!-- {{- if '' @ condition @ '' -}}-->'', ''<!--{{- end -}}-->'')]"

function scanForEnd :: "string \<Rightarrow> string \<Rightarrow> nat \<Rightarrow> nat \<Rightarrow> nat option" where
  "scanForEnd result pend searchPos nestLevel =
     (if searchPos < length result then
        (let nextIfIdx = Index (drop searchPos result) ''<!-- {{- if '';
             nextEndIdx = Index (drop searchPos result) pend
         in case nextEndIdx of
              Some e \<Rightarrow>
                if (case nextIfIdx of None \<Rightarrow> True | Some i \<Rightarrow> e < i) then
                  (let checkPos = searchPos + e;
                       isChained =
                         (e > 0 \<and> checkPos + length pend < length result \<and>
                          HasPrefix
                            (slice result (checkPos + length pend)
                               (min (checkPos + length pend + 10) (length result)))
                            ''{{ if '')
                   in if \<not> isChained then
                        (if nestLevel - 1 = 0 then Some (searchPos + e)
                         else scanForEnd result pend (searchPos + e + length pend) (nestLevel - 1))
                      else scanForEnd result pend (searchPos + e + length pend) nestLevel)
                else
                  (case nextIfIdx of
                     Some i \<Rightarrow>
                       scanForEnd result pend (searchPos + i + length ''<!-- {{- if '')
                         (nestLevel + 1)
                   | None \<Rightarrow> None)
            | None \<Rightarrow>
                (case nextIfIdx of
                   Some i \<Rightarrow>
                     scanForEnd result pend (searchPos + i + length ''<!-- {{- if '')
                       (nestLevel + 1)
                 | None \<Rightarrow> None))
      else None)"
  by pat_completeness auto
termination
  apply (relation "measure (\<lambda>(result, pend, searchPos, nestLevel).
            2 * (length result - searchPos) + nestLevel)")
      apply simp
     apply (auto dest!: Index_bound)
  done

declare scanForEnd.simps [simp del]

lemma scanForEnd_bounds:
  "scanForEnd result pend searchPos nestLevel = Some endIdx \<Longrightarrow>
     searchPos \<le> endIdx \<and> endIdx + length pend \<le> length result"
proof (induction result pend searchPos nestLevel rule: scanForEnd.induct)
  case (1 result pend searchPos nestLevel)
  let ?nextIf = "Index (drop searchPos result) ''<!-- {{- if ''"
  let ?nextEnd = "Index (drop searchPos result) pend"
  from "1.prems" have lt: "searchPos < length result"
    by (subst (asm) scanForEnd.simps) (simp split: if_splits)
  have ifBranch: ?case
    if i: "?nextIf = Some i"
      and r: "scanForEnd result pend (searchPos + i + length ''<!-- {{- if '') (nestLevel + 1) = Some endIdx"
      and c: "?nextEnd = None \<or> (\<exists>e. ?nextEnd = Some e \<and> \<not> e < i)" for i
  proof -
    from c have "searchPos + i + length ''<!-- {{- if '' \<le> endIdx \<and> endIdx + length pend \<le> length result"
    proof
      assume n: "?nextEnd = None"
      show ?thesis using "1.IH"(1) [OF lt refl refl n i r] .
    next
      assume "\<exists>e. ?nextEnd = Some e \<and> \<not> e < i"
      then obtain e where e: "?nextEnd = Some e" "\<not> e < i" by blast
      have "\<not> (case ?nextIf of None \<Rightarrow> True | Some i \<Rightarrow> e < i)" using i e by simp
      from "1.IH"(4) [OF lt refl refl e(1) this i r] show ?thesis .
    qed
    then show ?thesis by simp
  qed
  show ?case
  proof (cases ?nextEnd)
    case None
    with "1.prems" lt obtain i where "?nextIf = Some i"
      "scanForEnd result pend (searchPos + i + length ''<!-- {{- if '') (nestLevel + 1) = Some endIdx"
      by (subst (asm) scanForEnd.simps) (auto simp: Let_def split: option.splits)
    with None ifBranch show ?thesis by blast
  next
    case (Some e)
    from Index_bound [OF Some] have eb: "searchPos + e + length pend \<le> length result"
      using lt by simp
    show ?thesis
    proof (cases "case ?nextIf of None \<Rightarrow> True | Some i \<Rightarrow> e < i")
      case False
      with "1.prems" lt Some obtain i where "?nextIf = Some i" "\<not> e < i"
        "scanForEnd result pend (searchPos + i + length ''<!-- {{- if '') (nestLevel + 1) = Some endIdx"
        by (subst (asm) scanForEnd.simps) (auto simp: Let_def split: option.splits)
      with Some ifBranch show ?thesis by blast
    next
      case True
      let ?chained = "e > 0 \<and> searchPos + e + length pend < length result \<and>
                          HasPrefix
                            (slice result (searchPos + e + length pend)
                               (min (searchPos + e + length pend + 10) (length result)))
                            ''{{ if ''"
      from "1.prems" lt Some True
      consider (found) "\<not> ?chained" "nestLevel - 1 = 0" "endIdx = searchPos + e"
        | (deeper) "\<not> ?chained" "nestLevel - 1 \<noteq> 0"
            "scanForEnd result pend (searchPos + e + length pend) (nestLevel - 1) = Some endIdx"
        | (chained) "?chained"
            "scanForEnd result pend (searchPos + e + length pend) nestLevel = Some endIdx"
        by (subst (asm) scanForEnd.simps) (auto simp: Let_def split: if_splits)
      then show ?thesis
      proof cases
        case found
        with eb show ?thesis by simp
      next
        case deeper
        from "1.IH"(2) [OF lt refl refl Some True refl refl deeper(1) deeper(2) deeper(3)]
        show ?thesis by simp
      next
        case chained
        have "\<not> \<not> ?chained" using chained(1) by simp
        from "1.IH"(3) [OF lt refl refl Some True refl refl this chained(2)]
        show ?thesis by simp
      qed
    qed
  qed
qed

text \<open>
  The loop over the patterns. A pattern whose opening marker does not occur, or whose
  end marker is not found, is skipped (\<open>continue\<close>); the first other one rewrites the
  text: with \<open>show\<close> the two markers are removed and the content stays, without it the
  whole block goes. \<open>None\<close> means that no pattern applied.
\<close>

fun tryPatterns :: "string \<Rightarrow> bool \<Rightarrow> (string \<times> string) list \<Rightarrow> string option" where
  "tryPatterns result show [] = None"
| "tryPatterns result show ((pstart, pend) # ps) =
     (case Index result pstart of
        None \<Rightarrow> tryPatterns result show ps
      | Some startIdx \<Rightarrow>
          (case scanForEnd result pend (startIdx + length pstart) 1 of
             None \<Rightarrow> tryPatterns result show ps
           | Some endIdx \<Rightarrow>
               Some (if show then
                       take startIdx result
                       @ slice result (startIdx + length pstart) endIdx
                       @ drop (endIdx + length pend) result
                     else take startIdx result @ drop (endIdx + length pend) result)))"

lemma tryPatterns_shorter:
  "tryPatterns result show ps = Some result' \<Longrightarrow> \<forall>(pstart, pend) \<in> set ps. pstart \<noteq> [] \<Longrightarrow>
     length result' < length result"
proof (induction ps)
  case Nil
  then show ?case by simp
next
  case (Cons p ps)
  obtain pstart pend where p: "p = (pstart, pend)" by (cases p)
  show ?case
  proof (cases "Index result pstart")
    case None
    with Cons p show ?thesis by simp
  next
    case (Some startIdx)
    show ?thesis
    proof (cases "scanForEnd result pend (startIdx + length pstart) 1")
      case None
      with Some Cons p show ?thesis by simp
    next
      case (Some endIdx)
      from scanForEnd_bounds [OF Some]
      have b: "startIdx + length pstart \<le> endIdx" "endIdx + length pend \<le> length result"
        by simp_all
      have ne: "0 < length pstart" using Cons.prems(2) p by simp
      from Cons.prems(1) p \<open>Index result pstart = Some startIdx\<close> Some
      have "result' = (if show then
                       take startIdx result
                       @ slice result (startIdx + length pstart) endIdx
                       @ drop (endIdx + length pend) result
                     else take startIdx result @ drop (endIdx + length pend) result)"
        by simp
      with b ne show ?thesis by (cases pstart) (auto simp: slice_def)
    qed
  qed
qed

lemma patterns_nonempty: "\<forall>(pstart, pend) \<in> set (patterns condition). pstart \<noteq> []"
  by (simp add: patterns_def)

text \<open>
  After a rewrite \<open>processIfBlock\<close> calls itself on the new text, which is shorter by
  at least the opening marker; when no pattern applies it returns the text.
\<close>

function processIfBlock :: "string \<Rightarrow> string \<Rightarrow> bool \<Rightarrow> string" where
  "processIfBlock template condition show =
     (case tryPatterns template show (patterns condition) of
        None \<Rightarrow> template
      | Some result \<Rightarrow> processIfBlock result condition show)"
  by pat_completeness auto
termination
proof (relation "measure (\<lambda>(template, condition, show). length template)")
  show "wf (measure (\<lambda>(template, condition, show). length template))" by simp
next
  fix template condition :: string and "show" result
  assume "tryPatterns template show (patterns condition) = Some result"
  then have "length result < length template"
    using tryPatterns_shorter patterns_nonempty by blast
  then show "((result, condition, show), (template, condition, show))
      \<in> measure (\<lambda>(template, condition, show). length template)"
    by simp
qed

declare processIfBlock.simps [simp del]

text \<open>
  The auto-refresh block has one fixed opening marker and is handled once, for its first
  occurrence: the end marker is searched from the opening marker on.
\<close>

definition refreshStart :: string where
  "refreshStart = ''<!-- {{ if or (eq code 408) (eq code 425) (eq code 429) (eq code 500) (eq code 502) (eq code 503) (eq code 504) }} -->''"

definition refreshEnd :: string where
  "refreshEnd = ''<!-- {{ end }} -->''"

definition processComplexRefreshConditional :: "string \<Rightarrow> bool \<Rightarrow> string" where
  "processComplexRefreshConditional template show =
     (case Index template refreshStart of
        None \<Rightarrow> template
      | Some startIdx \<Rightarrow>
          (case Index (drop startIdx template) refreshEnd of
             None \<Rightarrow> template
           | Some e \<Rightarrow>
               (let endIdx = e + startIdx
                in if show then
                     take startIdx template
                     @ slice template (startIdx + length refreshStart) endIdx
                     @ drop (endIdx + length refreshEnd) template
                   else take startIdx template @ drop (endIdx + length refreshEnd) template)))"

definition shouldAutoRefresh :: "TemplateData \<Rightarrow> bool" where
  "shouldAutoRefresh data =
     (Code data = 408 \<or> Code data = 425 \<or> Code data = 429 \<or>
      Code data = 500 \<or> Code data = 502 \<or> Code data = 503 \<or> Code data = 504)"

definition processConditionals :: "string \<Rightarrow> TemplateData \<Rightarrow> string" where
  "processConditionals template data =
     (let result = processComplexRefreshConditional template (shouldAutoRefresh data);
          result = processIfBlock result ''show_details'' (ShowDetails data);
          result = processIfBlock result ''l10n_enabled'' (L10nEnabled data)
      in result)"

subsection \<open>Substitution\<close>

text \<open>
  The placeholders and their values are a Go map, listed here in the order of the map
  literal. The source ranges over the map, and Go does not fix the order of such an
  iteration; it is a parameter of \<open>renderTemplate\<close>: a list \<open>order\<close> of the eleven
  indices, each once (\<open>mapOrder\<close>), in which the entries are visited.
\<close>

definition replacements :: "TemplateData \<Rightarrow> (string \<times> string) list" where
  "replacements data =
    [(''{{ code }}'', Itoa (Code data)),
     (''{{ message }}'', Message data),
     (''{{ description }}'', Description data),
     (''{{ message | escape }}'', htmlEscape (Message data)),
     (''{{ description | escape }}'', htmlEscape (Description data)),
     (''{{ host }}'', Host data),
     (''{{ original_uri }}'', OriginalURI data),
     (''{{ forwarded_for }}'', ForwardedFor data),
     (''{{ request_id }}'', RequestID data),
     (''{{ nowUnix }}'', Itoa (NowUnix data)),
     (''{{ l10nScript }}'', L10nScript data)]"

definition mapOrder :: "nat list \<Rightarrow> bool" where
  "mapOrder order = (distinct order \<and> set order = {0..<11})"

definition renderTemplate :: "nat list \<Rightarrow> string \<Rightarrow> TemplateData \<Rightarrow> string" where
  "renderTemplate order template data =
     (let result = processConditionals template data
      in foldl (\<lambda>result (placeholder, value). ReplaceAll result placeholder value)
           result (map (\<lambda>i. replacements data ! i) order))"

subsection \<open>Cleanup\<close>

text \<open>
  \<open>cleanupEmptyRows\<close> removes seven leftover markers and then walks over the lines.
  At a line with \<open><tr>\<close> it looks at the next four lines at most
  (\<open>emptyValueAhead\<close>) for an empty value cell before the row ends; such a row is dropped
  up to and including the next line with \<open></tr>\<close>.
\<close>

fun emptyValueAhead :: "string list \<Rightarrow> bool" where
  "emptyValueAhead [] = False"
| "emptyValueAhead (l # ls) =
     (let nextLine = TrimSpace l
      in if Contains nextLine (''<td class='' @ [CHR 0x22] @ ''value'' @ [CHR 0x22] @ ''></td>'') then True
         else if Contains nextLine ''</tr>'' then False
         else emptyValueAhead ls)"

fun cleanupLoop :: "bool \<Rightarrow> string list \<Rightarrow> string list" where
  "cleanupLoop skipUntilEndTr [] = []"
| "cleanupLoop skipUntilEndTr (l # rest) =
     (let line = TrimSpace l
      in if Contains line ''<tr>'' \<and> emptyValueAhead (take 4 rest) then cleanupLoop True rest
         else if skipUntilEndTr then
           cleanupLoop (if Contains line ''</tr>'' then False else skipUntilEndTr) rest
         else l # cleanupLoop skipUntilEndTr rest)"

definition cleanupEmptyRows :: "string \<Rightarrow> string" where
  "cleanupEmptyRows html =
     (let result = html;
          result = ReplaceAll result ''<!-- {{- if show_details -}} -->'' [];
          result = ReplaceAll result ''<!-- {{- if host -}} -->'' [];
          result = ReplaceAll result ''<!-- {{- end }}{{ if original_uri -}} -->'' [];
          result = ReplaceAll result ''<!-- {{- end }}{{ if forwarded_for -}} -->'' [];
          result = ReplaceAll result ''<!-- {{- end }}{{ if request_id -}} -->'' [];
          result = ReplaceAll result ''<!-- {{- end -}} -->'' [];
          result = ReplaceAll result ''<!-- {{- if l10n_enabled -}} -->'' [];
          lines = Split result [CHR 0x0A]
      in Join (cleanupLoop False lines) [CHR 0x0A])"

subsection \<open>Rendering a page\<close>

text \<open>
  \<open>RenderErrorPage\<close> first fills in the record it was given (through the pointer, so
  the caller's record becomes \<open>fillDefaults now data\<close>): the timestamp when it is 0,
  where \<open>now\<close> stands for the reading of the clock, and the message and the description
  when they are empty. It returns the page and never an error.
\<close>

definition fillDefaults :: "int \<Rightarrow> TemplateData \<Rightarrow> TemplateData" where
  "fillDefaults now data =
     (let data = (if NowUnix data = 0 then data\<lparr>NowUnix := now\<rparr> else data);
          data = (if Message data = [] then data\<lparr>Message := getStatusMessage (Code data)\<rparr> else data);
          data = (if Description data = [] then data\<lparr>Description := getStatusDescription (Code data)\<rparr>
                  else data)
      in data)"

type_synonym error = string

definition RenderErrorPage :: "Handler \<Rightarrow> nat list \<Rightarrow> int \<Rightarrow> TemplateData \<Rightarrow> error + string" where
  "RenderErrorPage h order now data =
     (let data = fillDefaults now data;
          result = renderTemplate order (template' h) data;
          result = cleanupEmptyRows result
      in Inr result)"

section \<open>Template preprocessing\<close>

text \<open>
  The handler that renders with \<open>text/template\<close> first rewrites the template line by
  line: a line that is nothing but a comment around control directives loses the comment
  skin, so that the template engine sees the directives. This preprocessing is modelled
  here; the template engine itself belongs to the Go library.
\<close>

definition controlKeywords :: "string list" where
  "controlKeywords =
     [''if '', ''else if '', ''else'', ''end'', ''range '', ''with '', ''block '', ''define '',
      ''template '']"

definition isControlKeyword :: "string \<Rightarrow> bool" where
  "isControlKeyword action =
     list_ex (\<lambda>kw. action = TrimSpace kw \<or> HasPrefix action kw) controlKeywords"

text \<open>
  The loop of \<open>containsOnlyDirectives\<close> over the rest of the text, with the flag
  \<open>found\<close> that records whether an action was seen.
\<close>

function directivesLoop :: "string \<Rightarrow> bool \<Rightarrow> bool" where
  "directivesLoop remaining found =
     (if length remaining > 0 then
        (case Index remaining ''{{'' of
           None \<Rightarrow> found \<and> TrimSpace remaining = []
         | Some idx \<Rightarrow>
             if TrimSpace (take idx remaining) \<noteq> [] then False
             else
               (case Index (drop idx remaining) ''}}'' of
                  None \<Rightarrow> False
                | Some endIdx \<Rightarrow>
                    (let action = slice remaining (idx + 2) (idx + endIdx);
                         action = Trim action ''- '';
                         action = TrimSpace action
                     in if \<not> isControlKeyword action then False
                        else directivesLoop (drop (idx + endIdx + 2) remaining) True)))
      else found)"
  by pat_completeness auto
termination
  by (relation "measure (\<lambda>(remaining, found). length remaining)") auto

declare directivesLoop.simps [simp del]

definition containsOnlyDirectives :: "string \<Rightarrow> bool" where
  "containsOnlyDirectives s0 =
     (let s = TrimSpace s0
      in if s = [] then False else directivesLoop s False)"

definition ensureOuterTrimMarkers :: "string \<Rightarrow> string" where
  "ensureOuterTrimMarkers s0 =
     (let s = (if HasPrefix s0 ''{{'' \<and> \<not> HasPrefix s0 ''{{-''
               then ''{{- '' @ TrimLeft (drop 2 s0) '' '' else s0);
          s = (if HasSuffix s ''}}'' \<and> \<not> HasSuffix s ''-}}''
               then TrimRight (take (length s - 2) s) '' '' @ '' -}}'' else s)
      in s)"

text \<open>
  The text inside each of the three comment skins, as the source computes \<open>inner\<close>.
\<close>

definition htmlInner :: "string \<Rightarrow> string" where
  "htmlInner trimmed = TrimSpace (TrimSuffix (TrimPrefix trimmed ''<!--'') ''-->'')"

definition cssInner :: "string \<Rightarrow> string" where
  "cssInner trimmed = TrimSpace (TrimSuffix (TrimPrefix trimmed ''/*'') ''*/'')"

definition jsInner :: "string \<Rightarrow> string" where
  "jsInner trimmed = TrimSpace (TrimPrefix trimmed ''//'')"

text \<open>
  The body of the loop over the lines: the three skins are tried in order, and a skin
  whose inner text is not made of directives falls through to the next.
\<close>

definition preprocessLine :: "string \<Rightarrow> string" where
  "preprocessLine line =
     (let trimmed = TrimSpace line
      in if HasPrefix trimmed ''<!--'' \<and> HasSuffix trimmed ''-->''
            \<and> containsOnlyDirectives (htmlInner trimmed)
         then ensureOuterTrimMarkers (htmlInner trimmed)
         else if HasPrefix trimmed ''/*'' \<and> HasSuffix trimmed ''*/''
            \<and> containsOnlyDirectives (cssInner trimmed)
         then ensureOuterTrimMarkers (cssInner trimmed)
         else if HasPrefix trimmed ''//'' \<and> \<not> HasPrefix trimmed ''///''
            \<and> containsOnlyDirectives (jsInner trimmed)
         then ensureOuterTrimMarkers (jsInner trimmed)
         else line)"

definition preprocessTemplate :: "string \<Rightarrow> string" where
  "preprocessTemplate raw =
     (let lines = Split raw [CHR 0x0A]
      in Join (map preprocessLine lines) [CHR 0x0A])"

section \<open>Configuration\<close>

text \<open>
  \<open>Parse\<close> starts from the defaults and lets every line of the file update the
  record (\<open>parseLine\<close> is the body of its loop). It returns the record and a nil error.
\<close>

definition parseLine :: "Config \<Rightarrow> string \<Rightarrow> Config" where
  "parseLine cfg line0 =
     (let line = TrimSpace line0
      in if HasPrefix line ''#'' \<or> line = [] then cfg
         else
           (let cfg = (if HasPrefix line ''theme:''
                       then cfg\<lparr>Theme := TrimSpace (TrimPrefix line ''theme:'')\<rparr> else cfg);
                cfg = (if HasPrefix line ''show_details:''
                       then cfg\<lparr>Config.ShowDetails :=
                              (TrimSpace (TrimPrefix line ''show_details:'') = ''true'')\<rparr>
                       else cfg)
            in cfg))"

definition Parse :: "string \<Rightarrow> error + Config" where
  "Parse yamlContent =
     (let cfg = \<lparr>Theme = ''cats'', ShowDetails = True\<rparr>;
          lines = Split yamlContent [CHR 0x0A]
      in Inr (foldl parseLine cfg lines))"

text \<open>
  For stating what \<open>Parse\<close> computes: the values that the lines of a file give for a
  key. A line counts when, with the white space around it removed, it is not empty, is
  not a comment and starts with the key; its value is the rest of the line, trimmed.
\<close>

definition settingValues :: "string \<Rightarrow> string list \<Rightarrow> string list" where
  "settingValues key lines =
     map (\<lambda>line. TrimSpace (TrimPrefix line key))
       (filter (\<lambda>line. \<not> (HasPrefix line ''#'' \<or> line = []) \<and> HasPrefix line key)
          (map TrimSpace lines))"

section \<open>The response interceptor\<close>

text \<open>
  The per-request context and its handler for response body chunks. The proxy is
  present as the buffered response body and as the answer it gives to
  \<open>ReplaceHttpResponseBody\<close>, which can be an error. The process-wide configuration
  and the rendering function of the process-wide handler are parameters. Log calls have
  no effect on the result and are left out.
\<close>

datatype Action = ActionContinue | ActionPause

record httpContext =
  shouldReplaceBody :: bool
  statusCode :: string
  host :: string
  originalURI :: string
  forwardedFor :: string
  requestID :: string

record hostState =
  responseBody :: string
  replaceFails :: bool

definition ReplaceHttpResponseBody :: "string \<Rightarrow> hostState \<Rightarrow> error + hostState" where
  "ReplaceHttpResponseBody data hs =
     (if replaceFails hs then Inl ''error status returned by host''
      else Inr (hs\<lparr>responseBody := data\<rparr>))"

text \<open>
  The status text is turned into a number digit by digit, other bytes are skipped. Go's
  \<open>int\<close> has 64 bits here, so the arithmetic wraps.
\<close>

definition wrap64 :: "int \<Rightarrow> int" where
  "wrap64 x = (x + 2 ^ 63) mod 2 ^ 64 - 2 ^ 63"

definition parseStatusCode :: "string \<Rightarrow> int" where
  "parseStatusCode s =
     foldl (\<lambda>statusCode c.
              if isDigit c then wrap64 (statusCode * 10 + int (of_char c - of_char CHR ''0''))
              else statusCode)
       0 s"

text \<open>
  The \<open>TemplateData\<close> literal of the handler; the fields it does not mention have
  their zero values.
\<close>

definition buildTemplateData :: "Config \<Rightarrow> httpContext \<Rightarrow> TemplateData" where
  "buildTemplateData pluginConfig ctx =
     \<lparr>Code = parseStatusCode (statusCode ctx),
      Message = [],
      Description = [],
      ShowDetails = Config.ShowDetails pluginConfig,
      Host = host ctx,
      OriginalURI = originalURI ctx,
      ForwardedFor = forwardedFor ctx,
      RequestID = requestID ctx,
      NowUnix = 0,
      L10nEnabled = False,
      L10nScript = []\<rparr>"

definition OnHttpResponseBody ::
  "(TemplateData \<Rightarrow> error + string) \<Rightarrow> Config \<Rightarrow> httpContext \<Rightarrow> hostState \<Rightarrow> int \<Rightarrow> bool
     \<Rightarrow> Action \<times> hostState" where
  "OnHttpResponseBody render pluginConfig ctx hs bodySize endOfStream =
     (if \<not> shouldReplaceBody ctx then (ActionContinue, hs)
      else if \<not> endOfStream then (ActionPause, hs)
      else
        (let templateData = buildTemplateData pluginConfig ctx
         in case render templateData of
              Inl err \<Rightarrow> (ActionContinue, hs)
            | Inr errorPage \<Rightarrow>
                (case ReplaceHttpResponseBody errorPage hs of
                   Inl err \<Rightarrow> (ActionContinue, hs)
                 | Inr hs' \<Rightarrow> (ActionContinue, hs'))))"

text \<open>
  The handler called for the body chunks of one response in turn, each chunk given by
  its size and its end-of-stream flag; the result is the list of actions and the host
  state at the end.
\<close>

fun bodyEvents ::
  "(TemplateData \<Rightarrow> error + string) \<Rightarrow> Config \<Rightarrow> httpContext \<Rightarrow> hostState \<Rightarrow> (int \<times> bool) list
     \<Rightarrow> Action list \<times> hostState" where
  "bodyEvents render pluginConfig ctx hs [] = ([], hs)"
| "bodyEvents render pluginConfig ctx hs ((bodySize, endOfStream) # rest) =
     (let (a, hs') = OnHttpResponseBody render pluginConfig ctx hs bodySize endOfStream;
          (as, hs'') = bodyEvents render pluginConfig ctx hs' rest
      in (a # as, hs''))"

section \<open>Properties of the status classification\<close>

lemma IsErrorStatus_value:
  "IsErrorStatus s = Some (length s = 3 \<and> (hd s = CHR ''4'' \<or> hd s = CHR ''5''))"
proof (cases "length s = 3")
  case True
  then obtain a b c where "s = [a, b, c]"
    by (metis length_0_conv length_Suc_conv numeral_3_eq_3)
  then show ?thesis
    by (simp add: IsErrorStatus_def byte_at_def)
next
  case False
  then show ?thesis
    by (simp add: IsErrorStatus_def)
qed

text \<open>
  C2. For every string, \<open>IsErrorStatus\<close> returns (it never panics), and it returns
  true exactly when the string has three bytes and the first one is the character 4
  or the character 5.
\<close>

theorem IsErrorStatus_iff:
  "IsErrorStatus s = Some (length s = 3 \<and> (hd s = CHR ''4'' \<or> hd s = CHR ''5''))"
  by (rule IsErrorStatus_value)

text \<open>
  C5, as stated, fails: the string \<open>4xx\<close> does not consist of three decimal digits,
  yet it has three bytes and starts with 4, so it is classified as an error status.
\<close>

theorem IsErrorStatus_non_numeric_counterexample:
  "\<not> threeDigits ''4xx'' \<and> IsErrorStatus ''4xx'' = Some True"
  by (simp add: threeDigits_def isDigit_def IsErrorStatus_def byte_at_def)

text \<open>
  C5, amended. \<open>IsErrorStatus\<close> never panics. It returns false for every string
  whose length is not 3 and for every string whose first byte is neither 4 nor 5, and
  it returns true for every string of three bytes whose first byte is 4 or 5, whether
  or not the bytes are decimal digits.
\<close>

theorem IsErrorStatus_false:
  "IsErrorStatus s \<noteq> None \<and>
   (length s \<noteq> 3 \<or> (hd s \<noteq> CHR ''4'' \<and> hd s \<noteq> CHR ''5'') \<longrightarrow> IsErrorStatus s = Some False) \<and>
   (length s = 3 \<and> (hd s = CHR ''4'' \<or> hd s = CHR ''5'') \<longrightarrow> IsErrorStatus s = Some True)"
  by (auto simp: IsErrorStatus_value)

theorem IsErrorStatus_false_witness:
  "IsErrorStatus ''abcd'' = Some False \<and> IsErrorStatus ''2xx'' = Some False
   \<and> IsErrorStatus [] = Some False \<and> IsErrorStatus ''4xx'' = Some True
   \<and> IsErrorStatus ''5zz'' = Some True \<and> IsErrorStatus ''503'' = Some True"
  using IsErrorStatus_false [of "''abcd''"] IsErrorStatus_false [of "''2xx''"]
    IsErrorStatus_false [of "[]"] IsErrorStatus_false [of "''4xx''"]
    IsErrorStatus_false [of "''5zz''"] IsErrorStatus_false [of "''503''"]
  by simp

section \<open>Properties of the status catalogue\<close>

lemma messages_distinct: "distinct (map fst messages)"
  by (simp add: messages_def)

lemma descriptions_distinct: "distinct (map fst descriptions)"
  by (simp add: descriptions_def)

lemma descriptions_keys:
  "fst ` set descriptions = {400, 401, 403, 404, 405, 408, 429, 500, 502, 503, 504}"
  by (simp add: descriptions_def)

lemma getStatusMessage_entry: "(code, msg) \<in> set messages \<Longrightarrow> getStatusMessage code = msg"
  using messages_distinct by (simp add: getStatusMessage_def)

lemma getStatusMessage_fallback:
  "code \<notin> fst ` set messages \<Longrightarrow>
   getStatusMessage code =
     (if 400 \<le> code \<and> code < 500 then ''Client Error'' else ''Server Error'')"
  by (simp add: getStatusMessage_def map_of_eq_None_iff [THEN iffD2])

lemma getStatusDescription_entry:
  "(code, desc) \<in> set descriptions \<Longrightarrow> getStatusDescription code = desc"
  using descriptions_distinct by (simp add: getStatusDescription_def)

lemma getStatusDescription_fallback:
  "code \<notin> fst ` set descriptions \<Longrightarrow>
   getStatusDescription code =
     (if 400 \<le> code \<and> code < 500 then ''An error occurred while processing your request.''
      else ''The server encountered an error while processing your request.'')"
  by (simp add: getStatusDescription_def map_of_eq_None_iff [THEN iffD2])

text \<open>
  C6. For a code with an entry in the message table, \<open>getStatusMessage\<close> returns that
  entry; for a code without one it returns \<open>Client Error\<close> when \<open>400 \<le> code < 500\<close> and
  \<open>Server Error\<close> otherwise. The description table has entries for exactly the codes
  400, 401, 403, 404, 405, 408, 429, 500, 502, 503 and 504; \<open>getStatusDescription\<close>
  returns the entry for these, and for every other code the generic client sentence
  when \<open>400 \<le> code < 500\<close> and the generic server sentence otherwise.
\<close>

theorem status_catalogue:
  "(\<forall>code msg. (code, msg) \<in> set messages \<longrightarrow> getStatusMessage code = msg) \<and>
   (\<forall>code. code \<notin> fst ` set messages \<longrightarrow>
      getStatusMessage code =
        (if 400 \<le> code \<and> code < 500 then ''Client Error'' else ''Server Error'')) \<and>
   fst ` set descriptions = {400, 401, 403, 404, 405, 408, 429, 500, 502, 503, 504} \<and>
   (\<forall>code desc. (code, desc) \<in> set descriptions \<longrightarrow> getStatusDescription code = desc) \<and>
   (\<forall>code. code \<notin> {400, 401, 403, 404, 405, 408, 429, 500, 502, 503, 504} \<longrightarrow>
      getStatusDescription code =
        (if 400 \<le> code \<and> code < 500 then ''An error occurred while processing your request.''
         else ''The server encountered an error while processing your request.''))"
proof (intro conjI allI impI)
  fix code msg assume "(code, msg) \<in> set messages"
  then show "getStatusMessage code = msg" by (rule getStatusMessage_entry)
next
  fix code :: int assume "code \<notin> fst ` set messages"
  then show "getStatusMessage code =
      (if 400 \<le> code \<and> code < 500 then ''Client Error'' else ''Server Error'')"
    by (rule getStatusMessage_fallback)
next
  show "fst ` set descriptions = {400, 401, 403, 404, 405, 408, 429, 500, 502, 503, 504}"
    by (rule descriptions_keys)
next
  fix code desc assume "(code, desc) \<in> set descriptions"
  then show "getStatusDescription code = desc" by (rule getStatusDescription_entry)
next
  fix code :: int
  assume "code \<notin> {400, 401, 403, 404, 405, 408, 429, 500, 502, 503, 504}"
  then have "code \<notin> fst ` set descriptions" unfolding descriptions_keys .
  then show "getStatusDescription code =
      (if 400 \<le> code \<and> code < 500 then ''An error occurred while processing your request.''
       else ''The server encountered an error while processing your request.'')"
    by (rule getStatusDescription_fallback)
qed

theorem status_catalogue_witness:
  "getStatusMessage 404 = ''Not Found'' \<and>
   getStatusMessage 451 = ''Unavailable For Legal Reasons'' \<and>
   getStatusMessage 499 = ''Client Error'' \<and>
   getStatusMessage 599 = ''Server Error'' \<and>
   getStatusMessage 200 = ''Server Error'' \<and>
   getStatusDescription 503 =
     ''The server is currently unable to handle the request due to temporary overloading or maintenance.'' \<and>
   getStatusDescription 418 = ''An error occurred while processing your request.'' \<and>
   getStatusDescription 501 = ''The server encountered an error while processing your request.''"
proof -
  have m1: "(404, ''Not Found'') \<in> set messages"
    and m2: "(451, ''Unavailable For Legal Reasons'') \<in> set messages"
    and m3: "(499::int) \<notin> fst ` set messages"
    and m4: "(599::int) \<notin> fst ` set messages"
    and m5: "(200::int) \<notin> fst ` set messages"
    by (simp_all add: messages_def)
  have d1: "(503, ''The server is currently unable to handle the request due to temporary overloading or maintenance.'')
      \<in> set descriptions"
    by (simp add: descriptions_def)
  from status_catalogue m1 m2 m3 m4 m5 d1 show ?thesis
    by simp
qed

section \<open>Properties of HTML escaping\<close>

lemma ReplaceAll_single:
  "ReplaceAll s [c] new = concat (map (\<lambda>x. if x = c then new else [x]) s)"
proof (induction s)
  case Nil
  then show ?case by (simp add: ReplaceAll_unfold)
next
  case (Cons x xs)
  have step: "ReplaceAll xs [c] new =
     (case Index xs [c] of None \<Rightarrow> xs
      | Some i \<Rightarrow> take i xs @ new @ ReplaceAll (drop (i + 1) xs) [c] new)"
    by (simp add: ReplaceAll_unfold [of "[c]" xs] split: option.splits)
  show ?case
  proof (cases "x = c")
    case True
    then show ?thesis using Cons.IH by (simp add: ReplaceAll_unfold [of "[c]" "c # xs"])
  next
    case False
    then have "ReplaceAll (x # xs) [c] new = x # ReplaceAll xs [c] new"
      using step by (simp add: ReplaceAll_unfold [of "[c]" "x # xs"] split: option.splits)
    with False Cons.IH show ?thesis by simp
  qed
qed

lemma htmlEscape_passes:
  "htmlEscape s =
     ReplaceAll (ReplaceAll (ReplaceAll (ReplaceAll (ReplaceAll s
       ''&'' ''&amp;'') ''<'' ''&lt;'') ''>'' ''&gt;'') [CHR 0x22] ''&quot;'') [CHR 0x27] ''&#39;''"
  by (simp add: htmlEscape_def htmlReplacements_def)

lemma htmlEscape_Cons: "htmlEscape (x # xs) = escapeChar x @ htmlEscape xs"
  by (simp add: htmlEscape_passes ReplaceAll_single escapeChar_def)

lemma htmlEscape_chars: "htmlEscape s = concat (map escapeChar s)"
proof (induction s)
  case Nil
  show ?case by (simp add: htmlEscape_passes ReplaceAll_single)
next
  case (Cons x xs)
  then show ?case by (simp add: htmlEscape_Cons)
qed

lemma escapeChar_safe:
  "set (escapeChar c) \<inter> {CHR ''<'', CHR ''>'', CHR 0x22, CHR 0x27} = {}"
  by (simp add: escapeChar_def)

lemma htmlEscape_safe:
  "set (htmlEscape s) \<inter> {CHR ''<'', CHR ''>'', CHR 0x22, CHR 0x27} = {}"
  using escapeChar_safe by (induction s) (auto simp: htmlEscape_chars)

text \<open>
  C4. \<open>htmlEscape\<close> is five passes of \<open>ReplaceAll\<close>, for the ampersand first, then
  \<open><\<close>, \<open>>\<close>, the double quote and the single quote. Because the ampersand pass runs
  before the passes that introduce ampersands, the result is the input with each special
  character replaced by its entity exactly once, and it contains none of the characters
  \<open><\<close>, \<open>>\<close>, double quote and single quote.
\<close>

theorem htmlEscape_priority_order:
  "htmlEscape s =
     ReplaceAll (ReplaceAll (ReplaceAll (ReplaceAll (ReplaceAll s
       ''&'' ''&amp;'') ''<'' ''&lt;'') ''>'' ''&gt;'') [CHR 0x22] ''&quot;'') [CHR 0x27] ''&#39;''
   \<and> htmlEscape s = concat (map escapeChar s)
   \<and> set (htmlEscape s) \<inter> {CHR ''<'', CHR ''>'', CHR 0x22, CHR 0x27} = {}"
  using htmlEscape_passes htmlEscape_chars htmlEscape_safe by blast

section \<open>Properties of the response interceptor\<close>

lemma bodyEvents_Cons:
  "bodyEvents render cfg ctx hs ((n, eos) # rest) =
     (fst (OnHttpResponseBody render cfg ctx hs n eos)
        # fst (bodyEvents render cfg ctx (snd (OnHttpResponseBody render cfg ctx hs n eos)) rest),
      snd (bodyEvents render cfg ctx (snd (OnHttpResponseBody render cfg ctx hs n eos)) rest))"
  by (simp split: prod.splits)

lemma OnHttpResponseBody_passthrough:
  "\<not> shouldReplaceBody ctx \<Longrightarrow>
     OnHttpResponseBody render cfg ctx hs n eos = (ActionContinue, hs)"
  by (simp add: OnHttpResponseBody_def)

lemma OnHttpResponseBody_pause:
  "shouldReplaceBody ctx \<Longrightarrow>
     OnHttpResponseBody render cfg ctx hs n False = (ActionPause, hs)"
  by (simp add: OnHttpResponseBody_def)

lemma OnHttpResponseBody_final:
  "shouldReplaceBody ctx \<Longrightarrow>
     OnHttpResponseBody render cfg ctx hs n True =
       (ActionContinue,
        case render (buildTemplateData cfg ctx) of
          Inl err \<Rightarrow> hs
        | Inr errorPage \<Rightarrow> if replaceFails hs then hs else hs\<lparr>responseBody := errorPage\<rparr>)"
  by (auto simp: OnHttpResponseBody_def ReplaceHttpResponseBody_def Let_def split: sum.splits)

lemma OnHttpResponseBody_action:
  "shouldReplaceBody ctx \<Longrightarrow>
     fst (OnHttpResponseBody render cfg ctx hs n eos) =
       (if eos then ActionContinue else ActionPause)"
  by (cases eos) (simp_all add: OnHttpResponseBody_final OnHttpResponseBody_pause)

lemma bodyEvents_passthrough:
  "\<not> shouldReplaceBody ctx \<Longrightarrow>
     bodyEvents render cfg ctx hs chunks = (replicate (length chunks) ActionContinue, hs)"
proof (induction chunks)
  case Nil
  show ?case by simp
next
  case (Cons c chunks)
  obtain n eos where c: "c = (n, eos)" by (cases c)
  with Cons show ?case
    by (simp add: bodyEvents_Cons OnHttpResponseBody_passthrough del: bodyEvents.simps(2))
qed

lemma bodyEvents_actions:
  "shouldReplaceBody ctx \<Longrightarrow>
     fst (bodyEvents render cfg ctx hs chunks) =
       map (\<lambda>(n, eos). if eos then ActionContinue else ActionPause) chunks"
proof (induction chunks arbitrary: hs)
  case Nil
  show ?case by simp
next
  case (Cons c chunks)
  obtain n eos where c: "c = (n, eos)" by (cases c)
  show ?case
    unfolding c bodyEvents_Cons
    using Cons.IH [OF Cons.prems] OnHttpResponseBody_action [OF Cons.prems]
    by simp
qed

lemma bodyEvents_stream:
  "shouldReplaceBody ctx \<Longrightarrow>
     bodyEvents render cfg ctx hs (map (\<lambda>n. (n, False)) sizes @ [(lastSize, True)]) =
       (replicate (length sizes) ActionPause @ [ActionContinue],
        case render (buildTemplateData cfg ctx) of
          Inl err \<Rightarrow> hs
        | Inr errorPage \<Rightarrow> if replaceFails hs then hs else hs\<lparr>responseBody := errorPage\<rparr>)"
proof (induction sizes)
  case Nil
  then show ?case by (simp add: bodyEvents_Cons OnHttpResponseBody_final del: bodyEvents.simps(2))
next
  case (Cons n sizes)
  then show ?case by (simp add: bodyEvents_Cons OnHttpResponseBody_pause del: bodyEvents.simps(2))
qed

section \<open>Documents without directives\<close>

text \<open>
  Every marker the two engines look for contains the two opening braces. A text without
  them therefore passes through preprocessing, the conditionals and the substitution
  as it is.
\<close>

lemma Contains_sublist: "Contains s sub \<longleftrightarrow> sublist sub s"
proof
  assume "Contains s sub"
  then obtain i where "Index s sub = Some i" by (auto simp: Contains_def)
  from Index_split [OF this] show "sublist sub s"
    by (metis sublist_appendI)
next
  assume "sublist sub s"
  then obtain ps ss where s: "s = ps @ sub @ ss" by (auto simp: sublist_def)
  then have "HasPrefix (drop (length ps) s) sub" "length ps \<le> length s"
    by (simp_all add: HasPrefix_prefix)
  then have "Index s sub \<noteq> None" using Index_None_iff by blast
  then show "Contains s sub" by (simp add: Contains_def)
qed

lemma Contains_part: "Contains t x \<Longrightarrow> sublist t s \<Longrightarrow> Contains s x"
  unfolding Contains_sublist by (rule sublist_order.order.trans)

lemma Index_None_part: "\<not> Contains s x \<Longrightarrow> Contains old x \<Longrightarrow> Index s old = None"
proof (rule ccontr)
  assume a: "\<not> Contains s x" "Contains old x" and "Index s old \<noteq> None"
  then have "Contains s old" by (simp add: Contains_def)
  then have "sublist old s" by (simp add: Contains_sublist)
  with a(2) have "Contains s x" by (rule Contains_part)
  with a(1) show False by simp
qed

lemma trimLeftRunes_sublist: "sublist (trimLeftRunes runes s) s"
proof (induction runes s rule: trimLeftRunes.induct)
  case (1 runes s)
  show ?case
  proof (cases "find (\<lambda>r. r \<noteq> [] \<and> HasPrefix s r) runes")
    case None
    then show ?thesis by (simp add: trimLeftRunes.simps [of runes s])
  next
    case (Some r)
    with "1.IH" have "sublist (trimLeftRunes runes (drop (length r) s)) (drop (length r) s)"
      by simp
    then have "sublist (trimLeftRunes runes (drop (length r) s)) s"
      using sublist_drop sublist_order.order.trans by blast
    with Some show ?thesis by (simp add: trimLeftRunes.simps [of runes s])
  qed
qed

lemma TrimSpace_sublist: "sublist (TrimSpace s) s"
proof -
  have "sublist (trimLeftRunes (map rev spaceRunes) (rev (trimLeftRunes spaceRunes s)))
          (rev (trimLeftRunes spaceRunes s))"
    by (rule trimLeftRunes_sublist)
  then have "sublist (TrimSpace s) (trimLeftRunes spaceRunes s)"
    by (simp add: TrimSpace_def sublist_rev_left)
  then show ?thesis
    using trimLeftRunes_sublist sublist_order.order.trans by blast
qed

lemma TrimPrefix_sublist: "sublist (TrimPrefix s p) s"
  by (simp add: TrimPrefix_def)

lemma TrimSuffix_sublist: "sublist (TrimSuffix s p) s"
  by (simp add: TrimSuffix_def)

lemma inner_sublist:
  "sublist (htmlInner t) t" "sublist (cssInner t) t" "sublist (jsInner t) t"
  unfolding htmlInner_def cssInner_def jsInner_def
  using TrimSpace_sublist TrimPrefix_sublist TrimSuffix_sublist sublist_order.order.trans
  by blast+

lemma containsOnlyDirectives_open: "containsOnlyDirectives s \<Longrightarrow> Contains s ''{{''"
proof -
  assume a: "containsOnlyDirectives s"
  then have ne: "TrimSpace s \<noteq> []" and l: "directivesLoop (TrimSpace s) False"
    by (auto simp: containsOnlyDirectives_def Let_def split: if_splits)
  from l ne have "Index (TrimSpace s) ''{{'' \<noteq> None"
    by (subst (asm) directivesLoop.simps) (auto split: option.splits)
  then have "Contains (TrimSpace s) ''{{''" by (simp add: Contains_def)
  then show ?thesis using TrimSpace_sublist Contains_part by blast
qed

lemma preprocessLine_plain: "\<not> Contains line ''{{'' \<Longrightarrow> preprocessLine line = line"
proof -
  assume a: "\<not> Contains line ''{{''"
  have "\<not> containsOnlyDirectives t" if "sublist t (TrimSpace line)" for t
  proof
    assume "containsOnlyDirectives t"
    then have "Contains t ''{{''" by (rule containsOnlyDirectives_open)
    with that have "Contains (TrimSpace line) ''{{''" using Contains_part by blast
    then have "Contains line ''{{''" using TrimSpace_sublist Contains_part by blast
    with a show False by simp
  qed
  then show ?thesis by (simp add: preprocessLine_def Let_def inner_sublist)
qed

lemma Split_nonempty: "sep \<noteq> [] \<Longrightarrow> Split s sep \<noteq> []"
  by (subst Split.simps) (auto split: option.splits)

lemma Join_Cons: "xs \<noteq> [] \<Longrightarrow> Join (x # xs) sep = x @ sep @ Join xs sep"
  by (cases xs) simp_all

lemma Join_Split: "sep \<noteq> [] \<Longrightarrow> Join (Split s sep) sep = s"
proof (induction s sep rule: Split.induct)
  case (1 s sep)
  show ?case
  proof (cases "Index s sep")
    case None
    with "1.prems" show ?thesis by (simp add: Split_unfold [of sep s])
  next
    case (Some i)
    with "1.IH" "1.prems" have "Join (Split (drop (i + length sep) s) sep) sep = drop (i + length sep) s"
      by simp
    with Some "1.prems" have "Join (Split s sep) sep = take i s @ sep @ drop (i + length sep) s"
      by (simp add: Split_unfold [of sep s] Join_Cons Split_nonempty)
    with Index_split [OF Some] show ?thesis by simp
  qed
qed

lemma Split_sublist: "sep \<noteq> [] \<Longrightarrow> x \<in> set (Split s sep) \<Longrightarrow> sublist x s"
proof (induction s sep rule: Split.induct)
  case (1 s sep)
  show ?case
  proof (cases "Index s sep")
    case None
    with "1.prems" show ?thesis by (simp add: Split_unfold [of sep s])
  next
    case (Some i)
    with "1.prems" have "x = take i s \<or> x \<in> set (Split (drop (i + length sep) s) sep)"
      by (simp add: Split_unfold [of sep s])
    then show ?thesis
    proof
      assume "x = take i s"
      then show ?thesis by simp
    next
      assume "x \<in> set (Split (drop (i + length sep) s) sep)"
      with "1.IH" "1.prems"(1) Some have "sublist x (drop (i + length sep) s)" by simp
      then show ?thesis using sublist_drop sublist_order.order.trans by blast
    qed
  qed
qed

lemma preprocessTemplate_plain:
  assumes "\<not> Contains doc ''{{''"
  shows "preprocessTemplate doc = doc"
proof -
  have "preprocessLine l = l" if "l \<in> set (Split doc [CHR 0x0A])" for l
  proof -
    from that have "sublist l doc" using Split_sublist [of "[CHR 0x0A]" l doc] by simp
    with assms have "\<not> Contains l ''{{''" using Contains_part by blast
    then show ?thesis by (rule preprocessLine_plain)
  qed
  then have "map preprocessLine (Split doc [CHR 0x0A]) = Split doc [CHR 0x0A]"
    by (simp add: map_idI)
  then show ?thesis by (simp add: preprocessTemplate_def Join_Split)
qed

lemma tryPatterns_None:
  "\<forall>(a, b) \<in> set ps. Index result a = None \<Longrightarrow> tryPatterns result show ps = None"
  by (induction ps) auto

lemma patterns_open: "(a, b) \<in> set (patterns c) \<Longrightarrow> Contains a ''{{''"
  by (auto simp: patterns_def Contains_sublist sublist_Cons_right)

lemma processIfBlock_plain:
  assumes "\<not> Contains doc ''{{''"
  shows "processIfBlock doc c b = doc"
proof -
  have "\<forall>(a, b) \<in> set (patterns c). Index doc a = None"
    using assms patterns_open Index_None_part by blast
  then have "tryPatterns doc b (patterns c) = None" by (rule tryPatterns_None)
  then show ?thesis by (simp add: processIfBlock.simps)
qed

lemma refreshStart_open: "Contains refreshStart ''{{''"
  by (simp add: refreshStart_def Contains_sublist sublist_Cons_right)

lemma processConditionals_plain:
  assumes "\<not> Contains doc ''{{''"
  shows "processConditionals doc data = doc"
proof -
  have "Index doc refreshStart = None"
    using assms refreshStart_open by (rule Index_None_part)
  then have "processComplexRefreshConditional doc (shouldAutoRefresh data) = doc"
    by (simp add: processComplexRefreshConditional_def)
  with assms show ?thesis by (simp add: processConditionals_def processIfBlock_plain)
qed

lemma replacements_open:
  "p \<in> set (replacements data) \<Longrightarrow> Contains (fst p) ''{{'' \<and> fst p \<noteq> []"
  by (auto simp: replacements_def Contains_sublist)

lemma length_replacements: "length (replacements data) = 11"
  by (simp add: replacements_def)

lemma substitute_plain:
  "\<forall>p \<in> set ps. Index doc (fst p) = None \<and> fst p \<noteq> [] \<Longrightarrow>
     foldl (\<lambda>result (placeholder, value). ReplaceAll result placeholder value) doc ps = doc"
  by (induction ps) (auto simp: ReplaceAll_unfold)

lemma substitution_plain:
  assumes "\<not> Contains doc ''{{''" and "mapOrder order"
  shows "foldl (\<lambda>result (placeholder, value). ReplaceAll result placeholder value) doc
           (map (\<lambda>i. replacements data ! i) order) = doc"
proof -
  have "\<forall>p \<in> set (map (\<lambda>i. replacements data ! i) order). Index doc (fst p) = None \<and> fst p \<noteq> []"
  proof
    fix p assume "p \<in> set (map (\<lambda>i. replacements data ! i) order)"
    then obtain i where "i \<in> set order" "p = replacements data ! i" by auto
    with assms(2) have "p \<in> set (replacements data)"
      by (simp add: mapOrder_def length_replacements)
    then have "Contains (fst p) ''{{''" "fst p \<noteq> []" using replacements_open by blast+
    with assms(1) show "Index doc (fst p) = None \<and> fst p \<noteq> []"
      using Index_None_part by blast
  qed
  then show ?thesis by (rule substitute_plain)
qed

lemma renderTemplate_plain:
  assumes "\<not> Contains doc ''{{''" and "mapOrder order"
  shows "renderTemplate order doc data = doc"
  using assms by (simp add: renderTemplate_def processConditionals_plain substitution_plain)

text \<open>
  C9. A document that contains no \<open>{{\<close> (so no directive and no placeholder) is
  returned unchanged by \<open>preprocessTemplate\<close>, and rendering the preprocessed document
  (conditionals, then substitution in whatever order the map is iterated) returns it
  unchanged as well, for every data record.
\<close>

theorem resolved_document_unchanged:
  assumes "\<not> Contains doc ''{{''" and "mapOrder order"
  shows "preprocessTemplate doc = doc \<and> renderTemplate order (preprocessTemplate doc) data = doc"
  using assms by (simp add: preprocessTemplate_plain renderTemplate_plain)

theorem resolved_document_unchanged_witness:
  "preprocessTemplate ''<h1>Not Found</h1>'' = ''<h1>Not Found</h1>'' \<and>
   renderTemplate [0..<11] (preprocessTemplate ''<h1>Not Found</h1>'')
     \<lparr>Code = 404, Message = ''Not Found'', Description = [], ShowDetails = True,
      Host = ''example.com'', OriginalURI = ''/missing'', ForwardedFor = [], RequestID = [],
      NowUnix = 1, L10nEnabled = False, L10nScript = []\<rparr> = ''<h1>Not Found</h1>''"
proof -
  have a: "\<not> Contains ''<h1>Not Found</h1>'' ''{{''" by (simp add: Contains_def)
  have b: "mapOrder [0..<11]" by (simp add: mapOrder_def)
  from resolved_document_unchanged [OF a b] show ?thesis .
qed

section \<open>Texts that the renderer leaves alone\<close>

lemma patterns_comment: "(a, b) \<in> set (patterns c) \<Longrightarrow> Contains a ''<!--''"
  by (auto simp: patterns_def Contains_sublist sublist_Cons_right)

lemma processIfBlock_no_comment:
  assumes "\<not> Contains doc ''<!--''"
  shows "processIfBlock doc c b = doc"
proof -
  have "\<forall>(a, b) \<in> set (patterns c). Index doc a = None"
    using assms patterns_comment Index_None_part by blast
  then have "tryPatterns doc b (patterns c) = None" by (rule tryPatterns_None)
  then show ?thesis by (simp add: processIfBlock.simps)
qed

lemma refreshStart_comment: "Contains refreshStart ''<!--''"
  by (simp add: refreshStart_def Contains_sublist sublist_Cons_right)

lemma processConditionals_no_comment:
  assumes "\<not> Contains doc ''<!--''"
  shows "processConditionals doc data = doc"
proof -
  have "Index doc refreshStart = None"
    using assms refreshStart_comment by (rule Index_None_part)
  then have "processComplexRefreshConditional doc (shouldAutoRefresh data) = doc"
    by (simp add: processComplexRefreshConditional_def)
  with assms show ?thesis by (simp add: processConditionals_def processIfBlock_no_comment)
qed

lemma cleanupLoop_keeps:
  "\<forall>l \<in> set lines. \<not> Contains (TrimSpace l) ''<tr>'' \<Longrightarrow> cleanupLoop False lines = lines"
  by (induction lines) simp_all

lemma ReplaceAll_absent: "old \<noteq> [] \<Longrightarrow> Index s old = None \<Longrightarrow> ReplaceAll s old new = s"
  by (simp add: ReplaceAll_unfold)

lemma cleanupEmptyRows_plain:
  assumes "\<not> Contains html x" and "x = ''{{'' \<or> x = ''<!--''"
    and "\<not> Contains html ''<tr>''"
  shows "cleanupEmptyRows html = html"
proof -
  have r: "ReplaceAll html old [] = html" if "Contains old ''{{''" "Contains old ''<!--''" for old
  proof -
    from that have "old \<noteq> []" by (auto simp: Contains_def)
    moreover have "Contains old x" using assms(2) that by auto
    then have "Index html old = None" using assms(1) Index_None_part by blast
    ultimately show ?thesis by (rule ReplaceAll_absent)
  qed
  have "\<not> Contains (TrimSpace l) ''<tr>''" if "l \<in> set (Split html [CHR 0x0A])" for l
  proof -
    from that have "sublist l html" using Split_sublist [of "[CHR 0x0A]" l html] by simp
    then have "sublist (TrimSpace l) html"
      using TrimSpace_sublist sublist_order.order.trans by blast
    with assms(3) show ?thesis using Contains_part by blast
  qed
  then have "cleanupLoop False (Split html [CHR 0x0A]) = Split html [CHR 0x0A]"
    by (simp add: cleanupLoop_keeps)
  then show ?thesis
    by (simp add: cleanupEmptyRows_def Let_def r Contains_sublist sublist_Cons_right Join_Split)
qed


lemma source_order: "map (\<lambda>i. replacements data ! i) [0..<11] = replacements data"
  using map_nth [of "replacements data"] by (simp add: length_replacements)

lemma reverse_order: "map (\<lambda>i. replacements data ! i) (rev [0..<11]) = rev (replacements data)"
  by (simp only: rev_map [symmetric] source_order)

lemma mapOrder_source: "mapOrder [0..<11]"
  by (simp add: mapOrder_def)

lemma mapOrder_reverse: "mapOrder (rev [0..<11])"
  by (simp add: mapOrder_def)

section \<open>The auto-refresh block\<close>





lemma Index_skip_chars:
  "c \<notin> set a \<Longrightarrow>
     Index (a @ s) (c # sub) =
       (case Index s (c # sub) of None \<Rightarrow> None | Some i \<Rightarrow> Some (length a + i))"
  by (induction a) (auto split: option.splits)

lemma Index_behind_refreshStart:
  "Index (refreshStart @ s) refreshEnd =
     (case Index s refreshEnd of None \<Rightarrow> None | Some i \<Rightarrow> Some (length refreshStart + i))"
proof -
  have a: "refreshStart = CHR ''<'' # tl refreshStart" by (simp add: refreshStart_def)
  have b: "CHR ''<'' \<notin> set (tl refreshStart)" by (simp add: refreshStart_def)
  have c: "\<not> HasPrefix (refreshStart @ s) refreshEnd"
    by (simp add: refreshStart_def refreshEnd_def)
  have d: "refreshEnd = CHR ''<'' # tl refreshEnd" by (simp add: refreshEnd_def)
  have l: "length refreshStart = Suc (length (tl refreshStart))"
    by (subst a) simp
  have "Index (refreshStart @ s) refreshEnd = Index (CHR ''<'' # (tl refreshStart @ s)) refreshEnd"
    using a by (metis append_Cons)
  also have "\<dots> = map_option Suc (Index (tl refreshStart @ s) refreshEnd)"
    using c a by (metis Index.simps(2) append_Cons)
  also have "Index (tl refreshStart @ s) refreshEnd
      = (case Index s refreshEnd of None \<Rightarrow> None
         | Some i \<Rightarrow> Some (length (tl refreshStart) + i))"
    using Index_skip_chars [OF b, of s "tl refreshEnd"] d by simp
  finally have e: "Index (refreshStart @ s) refreshEnd =
      map_option Suc (case Index s refreshEnd of None \<Rightarrow> None
         | Some i \<Rightarrow> Some (length (tl refreshStart) + i))" .
  show ?thesis
  proof (cases "Index s refreshEnd")
    case None
    with e show ?thesis by simp
  next
    case (Some i)
    with e have "Index (refreshStart @ s) refreshEnd = Some (Suc (length (tl refreshStart) + i))"
      by simp
    also have "Suc (length (tl refreshStart) + i) = length refreshStart + i"
      by (simp only: l add_Suc)
    finally show ?thesis using Some by simp
  qed
qed

text \<open>
  The model's slices are total; the source's panic when the bounds are out of order.
  They never are: the end marker of the refresh block is found behind the opening
  marker, and the closing braces of an action behind its opening braces. (For
  \<open>processIfBlock\<close> this is \<open>scanForEnd_bounds\<close>.)
\<close>

lemma refresh_slice_in_range:
  assumes "Index template refreshStart = Some startIdx"
    and "Index (drop startIdx template) refreshEnd = Some e"
  shows "startIdx + length refreshStart \<le> e + startIdx \<and>
         e + startIdx + length refreshEnd \<le> length template"
proof -
  have "take (length refreshStart) (drop startIdx template) = refreshStart"
    using Index_occurs [OF assms(1)] by (rule HasPrefix_take)
  then have "drop startIdx template
      = refreshStart @ drop (length refreshStart) (drop startIdx template)"
    by (metis append_take_drop_id)
  with assms(2)
    Index_behind_refreshStart [of "drop (length refreshStart) (drop startIdx template)"]
  have "length refreshStart \<le> e" by (auto split: option.splits)
  moreover from Index_bound [OF assms(2)] Index_bound [OF assms(1)]
  have "e + startIdx + length refreshEnd \<le> length template" by simp
  ultimately show ?thesis by simp
qed

lemma action_slice_in_range:
  assumes "Index remaining ''{{'' = Some idx"
    and "Index (drop idx remaining) ''}}'' = Some endIdx"
  shows "idx + 2 \<le> idx + endIdx \<and> idx + endIdx + 2 \<le> length remaining"
proof -
  from Index_occurs [OF assms(1)]
  obtain rest where r: "drop idx remaining = CHR ''{'' # CHR ''{'' # rest"
    by (auto simp: HasPrefix_prefix prefix_def)
  from Index_occurs [OF assms(2)]
  have "HasPrefix (drop endIdx (drop idx remaining)) ''}}''" .
  then have "2 \<le> endIdx"
    unfolding r by (cases endIdx; cases "endIdx - 1") auto
  moreover from Index_bound [OF assms(2)] Index_bound [OF assms(1)]
  have "idx + endIdx + 2 \<le> length remaining" by simp
  ultimately show ?thesis by simp
qed



section \<open>Properties of the configuration parser\<close>

lemmas trim_eval = TrimSpace_def trimLeftRunes.simps spaceRunes_def

lemma settingValues_snoc:
  "settingValues key (ls @ [l]) =
     (if \<not> (HasPrefix (TrimSpace l) ''#'' \<or> TrimSpace l = []) \<and> HasPrefix (TrimSpace l) key
      then settingValues key ls @ [TrimSpace (TrimPrefix (TrimSpace l) key)]
      else settingValues key ls)"
  by (simp add: settingValues_def)

lemma foldl_parseLine:
  "foldl parseLine \<lparr>Theme = ''cats'', ShowDetails = True\<rparr> ls =
     \<lparr>Theme = (if settingValues ''theme:'' ls = [] then ''cats''
               else last (settingValues ''theme:'' ls)),
      ShowDetails = (if settingValues ''show_details:'' ls = [] then True
                     else last (settingValues ''show_details:'' ls) = ''true'')\<rparr>"
proof (induction ls rule: rev_induct)
  case Nil
  show ?case by (simp add: settingValues_def)
next
  case (snoc l ls)
  show ?case
    by (simp only: foldl_append foldl.simps snoc.IH settingValues_snoc)
       (simp add: parseLine_def Let_def)
qed

lemma Parse_value:
  "Parse y =
     Inr \<lparr>Theme = (if settingValues ''theme:'' (Split y [CHR 0x0A]) = [] then ''cats''
               else last (settingValues ''theme:'' (Split y [CHR 0x0A]))),
      ShowDetails = (if settingValues ''show_details:'' (Split y [CHR 0x0A]) = [] then True
                     else last (settingValues ''show_details:'' (Split y [CHR 0x0A])) = ''true'')\<rparr>"
  by (simp add: Parse_def Let_def foldl_parseLine)

text \<open>
  C10. \<open>Parse\<close> returns a configuration and no error for every input. The theme is
  the value of the last \<open>theme:\<close> line and \<open>cats\<close> when there is none. \<open>ShowDetails\<close>
  is true when there is no \<open>show_details:\<close> line, and otherwise it is true exactly
  when the text behind the last \<open>show_details:\<close>, with the white space around it
  removed, is the string \<open>true\<close>.
\<close>

theorem Parse_never_fails:
  "Parse y =
     Inr \<lparr>Theme = (if settingValues ''theme:'' (Split y [CHR 0x0A]) = [] then ''cats''
               else last (settingValues ''theme:'' (Split y [CHR 0x0A]))),
      ShowDetails = (if settingValues ''show_details:'' (Split y [CHR 0x0A]) = [] then True
                     else last (settingValues ''show_details:'' (Split y [CHR 0x0A])) = ''true'')\<rparr>"
  by (rule Parse_value)

lemma single_line: "Index y [CHR 0x0A] = None \<Longrightarrow> Split y [CHR 0x0A] = [y]"
  by (simp add: Split_unfold)

lemma settingValues_single:
  "TrimSpace l = l \<Longrightarrow> l \<noteq> [] \<Longrightarrow> \<not> HasPrefix l ''#'' \<Longrightarrow>
     settingValues key [l] = (if HasPrefix l key then [TrimSpace (TrimPrefix l key)] else [])"
  by (simp add: settingValues_def)

theorem Parse_never_fails_witness:
  "Parse [] = Inr \<lparr>Theme = ''cats'', ShowDetails = True\<rparr> \<and>
   Parse ''show_details: true'' = Inr \<lparr>Theme = ''cats'', ShowDetails = True\<rparr> \<and>
   Parse ''show_details: True'' = Inr \<lparr>Theme = ''cats'', ShowDetails = False\<rparr> \<and>
   Parse ''show_details: yes'' = Inr \<lparr>Theme = ''cats'', ShowDetails = False\<rparr> \<and>
   Parse ''show_details: 1'' = Inr \<lparr>Theme = ''cats'', ShowDetails = False\<rparr>"
proof -
  have t: "TrimSpace [] = []" "TrimSpace ''show_details: true'' = ''show_details: true''"
    "TrimSpace ''show_details: True'' = ''show_details: True''"
    "TrimSpace ''show_details: yes'' = ''show_details: yes''"
    "TrimSpace ''show_details: 1'' = ''show_details: 1''"
    "TrimSpace '' true'' = ''true''" "TrimSpace '' True'' = ''True''"
    "TrimSpace '' yes'' = ''yes''" "TrimSpace '' 1'' = ''1''"
    by (simp_all add: trim_eval)
  have v0: "settingValues key (Split [] [CHR 0x0A]) = []" for key
    by (simp add: single_line settingValues_def t)
  have v: "settingValues ''theme:'' (Split ''show_details: true'' [CHR 0x0A]) = []"
    "settingValues ''theme:'' (Split ''show_details: True'' [CHR 0x0A]) = []"
    "settingValues ''theme:'' (Split ''show_details: yes'' [CHR 0x0A]) = []"
    "settingValues ''theme:'' (Split ''show_details: 1'' [CHR 0x0A]) = []"
    "settingValues ''show_details:'' (Split ''show_details: true'' [CHR 0x0A]) = [''true'']"
    "settingValues ''show_details:'' (Split ''show_details: True'' [CHR 0x0A]) = [''True'']"
    "settingValues ''show_details:'' (Split ''show_details: yes'' [CHR 0x0A]) = [''yes'']"
    "settingValues ''show_details:'' (Split ''show_details: 1'' [CHR 0x0A]) = [''1'']"
    by (simp_all add: single_line settingValues_single t TrimPrefix_def)
  show ?thesis
    using Parse_never_fails [of "[]"] Parse_never_fails [of "''show_details: true''"]
      Parse_never_fails [of "''show_details: True''"] Parse_never_fails [of "''show_details: yes''"]
      Parse_never_fails [of "''show_details: 1''"]
    by (simp only: v0 v) simp
qed

section \<open>Properties of template preprocessing\<close>

lemma isControlKeyword_eval:
  "isControlKeyword action \<longleftrightarrow>
     action = ''if'' \<or> HasPrefix action ''if '' \<or>
     action = ''else if'' \<or> HasPrefix action ''else if '' \<or>
     action = ''else'' \<or> HasPrefix action ''else'' \<or>
     action = ''end'' \<or> HasPrefix action ''end'' \<or>
     action = ''range'' \<or> HasPrefix action ''range '' \<or>
     action = ''with'' \<or> HasPrefix action ''with '' \<or>
     action = ''block'' \<or> HasPrefix action ''block '' \<or>
     action = ''define'' \<or> HasPrefix action ''define '' \<or>
     action = ''template'' \<or> HasPrefix action ''template ''"
proof -
  have t: "TrimSpace ''if '' = ''if''" "TrimSpace ''else if '' = ''else if''"
    "TrimSpace ''else'' = ''else''" "TrimSpace ''end'' = ''end''"
    "TrimSpace ''range '' = ''range''" "TrimSpace ''with '' = ''with''"
    "TrimSpace ''block '' = ''block''" "TrimSpace ''define '' = ''define''"
    "TrimSpace ''template '' = ''template''"
    by (simp_all add: trim_eval)
  show ?thesis
    by (simp only: isControlKeyword_def controlKeywords_def list_ex_Cons_iff list_ex_Nil_iff t
        disj_assoc simp_thms)
qed

lemma preprocessLine_changed:
  assumes "preprocessLine line \<noteq> line"
  shows "(HasPrefix (TrimSpace line) ''<!--'' \<and> HasSuffix (TrimSpace line) ''-->''
            \<and> containsOnlyDirectives (htmlInner (TrimSpace line)))
       \<or> (HasPrefix (TrimSpace line) ''/*'' \<and> HasSuffix (TrimSpace line) ''*/''
            \<and> containsOnlyDirectives (cssInner (TrimSpace line)))
       \<or> (HasPrefix (TrimSpace line) ''//'' \<and> \<not> HasPrefix (TrimSpace line) ''///''
            \<and> containsOnlyDirectives (jsInner (TrimSpace line)))"
  using assms by (auto simp: preprocessLine_def Let_def split: if_splits)

lemma preprocessTemplate_single_line:
  "Index raw [CHR 0x0A] = None \<Longrightarrow> preprocessTemplate raw = preprocessLine raw"
  by (simp add: preprocessTemplate_def Split_unfold)

lemmas directives_eval = containsOnlyDirectives_def directivesLoop.simps slice_def Trim_def
  TrimLeft_def TrimRight_def isControlKeyword_eval Let_def trim_eval

lemma preprocessLine_endpoint: "preprocessLine ''// {{ endpoint }}'' = ''{{- endpoint -}}''"
proof -
  have t: "TrimSpace ''// {{ endpoint }}'' = ''// {{ endpoint }}''"
    by (simp add: trim_eval)
  have i: "jsInner ''// {{ endpoint }}'' = ''{{ endpoint }}''"
    by (simp add: jsInner_def TrimPrefix_def trim_eval)
  have m: "ensureOuterTrimMarkers ''{{ endpoint }}'' = ''{{- endpoint -}}''"
    by (simp add: ensureOuterTrimMarkers_def TrimLeft_def TrimRight_def HasSuffix_def Let_def)
  have c: "containsOnlyDirectives ''{{ endpoint }}''"
    by (simp add: directives_eval)
  have p: "\<not> HasPrefix ''// {{ endpoint }}'' ''<!--''" "\<not> HasPrefix ''// {{ endpoint }}'' ''/*''"
    "HasPrefix ''// {{ endpoint }}'' ''//''" "\<not> HasPrefix ''// {{ endpoint }}'' ''///''"
    by simp_all
  show ?thesis
    unfolding preprocessLine_def Let_def t i
    by (simp only: m c p simp_thms if_True if_False)
qed

lemma preprocessLine_l10nScript: "preprocessLine ''// {{ l10nScript }}'' = ''// {{ l10nScript }}''"
proof -
  have t: "TrimSpace ''// {{ l10nScript }}'' = ''// {{ l10nScript }}''"
    by (simp add: trim_eval)
  have i: "jsInner ''// {{ l10nScript }}'' = ''{{ l10nScript }}''"
    by (simp add: jsInner_def TrimPrefix_def trim_eval)
  have c: "\<not> containsOnlyDirectives ''{{ l10nScript }}''"
    by (simp add: directives_eval)
  have p: "\<not> HasPrefix ''// {{ l10nScript }}'' ''<!--''" "\<not> HasPrefix ''// {{ l10nScript }}'' ''/*''"
    by simp_all
  show ?thesis
    unfolding preprocessLine_def Let_def t i
    by (simp only: c p simp_thms if_True if_False)
qed

text \<open>
  C7. The line \<open>// {{ endpoint }}\<close> is a comment around one action, the call of a
  function named \<open>endpoint\<close>, which is not a control keyword. \<open>preprocessTemplate\<close>
  unwraps it all the same, as \<open>isControlKeyword\<close> accepts every action whose text starts
  with the letters \<open>end\<close> or \<open>else\<close>. The placeholder line \<open>// {{ l10nScript }}\<close> is
  returned as it is.
\<close>

theorem preprocessTemplate_endpoint:
  "preprocessTemplate ''// {{ endpoint }}'' = ''{{- endpoint -}}'' \<and>
   preprocessTemplate ''// {{ l10nScript }}'' = ''// {{ l10nScript }}''"
  by (simp add: preprocessTemplate_single_line preprocessLine_endpoint preprocessLine_l10nScript)

section \<open>Two renderings worked out\<close>

lemma RenderErrorPage_unfold:
  "RenderErrorPage h order now data =
     Inr (cleanupEmptyRows
            (foldl (\<lambda>result (placeholder, value). ReplaceAll result placeholder value)
               (processConditionals (template' h) (fillDefaults now data))
               (map (\<lambda>i. replacements (fillDefaults now data) ! i) order)))"
  by (simp add: RenderErrorPage_def renderTemplate_def Let_def)

lemma RenderErrorPage_source_order:
  "RenderErrorPage h [0..<11] now data =
     Inr (cleanupEmptyRows
            (foldl (\<lambda>result (placeholder, value). ReplaceAll result placeholder value)
               (processConditionals (template' h) (fillDefaults now data))
               (replacements (fillDefaults now data))))"
  by (simp only: RenderErrorPage_unfold source_order)

lemma RenderErrorPage_reverse_order:
  "RenderErrorPage h (rev [0..<11]) now data =
     Inr (cleanupEmptyRows
            (foldl (\<lambda>result (placeholder, value). ReplaceAll result placeholder value)
               (processConditionals (template' h) (fillDefaults now data))
               (rev (replacements (fillDefaults now data)))))"
  by (simp only: RenderErrorPage_unfold reverse_order)

lemma replacements_503:
  "replacements
     \<lparr>Code = 503, Message = ''Service Unavailable'',
      Description = ''The server is currently unable to handle the request due to temporary overloading or maintenance.'',
      ShowDetails = True, Host = ''example.com'', OriginalURI = ''/'', ForwardedFor = [],
      RequestID = [], NowUnix = 1700000000, L10nEnabled = False, L10nScript = []\<rparr>
   = [(''{{ code }}'', ''503''),
      (''{{ message }}'', ''Service Unavailable''),
      (''{{ description }}'', ''The server is currently unable to handle the request due to temporary overloading or maintenance.''),
      (''{{ message | escape }}'', ''Service Unavailable''),
      (''{{ description | escape }}'', ''The server is currently unable to handle the request due to temporary overloading or maintenance.''),
      (''{{ host }}'', ''example.com''),
      (''{{ original_uri }}'', ''/''),
      (''{{ forwarded_for }}'', []),
      (''{{ request_id }}'', []),
      (''{{ nowUnix }}'', ''1700000000''),
      (''{{ l10nScript }}'', [])]"
  by (simp add: replacements_def Itoa_def natDec.simps digitChar_def htmlEscape_chars escapeChar_def)

lemma render_503:
  "RenderErrorPage \<lparr>template' = ''<h1>{{ code }}</h1>'', version = ''dev''\<rparr> [0..<11] 1700000000
     (buildTemplateData \<lparr>Theme = ''cats'', ShowDetails = True\<rparr>
        \<lparr>shouldReplaceBody = b, statusCode = ''503'', host = ''example.com'', originalURI = ''/'',
         forwardedFor = [], requestID = []\<rparr>)
   = Inr ''<h1>503</h1>''"
proof -
  have d: "fillDefaults 1700000000
      (buildTemplateData \<lparr>Theme = ''cats'', ShowDetails = True\<rparr>
        \<lparr>shouldReplaceBody = b, statusCode = ''503'', host = ''example.com'', originalURI = ''/'',
         forwardedFor = [], requestID = []\<rparr>)
     = \<lparr>Code = 503, Message = ''Service Unavailable'',
      Description = ''The server is currently unable to handle the request due to temporary overloading or maintenance.'',
      ShowDetails = True, Host = ''example.com'', OriginalURI = ''/'', ForwardedFor = [],
      RequestID = [], NowUnix = 1700000000, L10nEnabled = False, L10nScript = []\<rparr>"
    by (simp add: buildTemplateData_def parseStatusCode_def isDigit_def wrap64_def
        fillDefaults_def getStatusMessage_def messages_def getStatusDescription_def descriptions_def)
  have c: "processConditionals ''<h1>{{ code }}</h1>'' data = ''<h1>{{ code }}</h1>''" for data
    by (rule processConditionals_no_comment) (simp add: Contains_def)
  have s: "foldl (\<lambda>result (placeholder, value). ReplaceAll result placeholder value)
      ''<h1>{{ code }}</h1>''
      [(''{{ code }}'', ''503''),
      (''{{ message }}'', ''Service Unavailable''),
      (''{{ description }}'', ''The server is currently unable to handle the request due to temporary overloading or maintenance.''),
      (''{{ message | escape }}'', ''Service Unavailable''),
      (''{{ description | escape }}'', ''The server is currently unable to handle the request due to temporary overloading or maintenance.''),
      (''{{ host }}'', ''example.com''),
      (''{{ original_uri }}'', ''/''),
      (''{{ forwarded_for }}'', []),
      (''{{ request_id }}'', []),
      (''{{ nowUnix }}'', ''1700000000''),
      (''{{ l10nScript }}'', [])] = ''<h1>503</h1>''"
    by (simp add: ReplaceAll_unfold)
  have k: "cleanupEmptyRows ''<h1>503</h1>'' = ''<h1>503</h1>''"
    by (rule cleanupEmptyRows_plain [where x = "''{{''"]) (simp_all add: Contains_def)
  show ?thesis
    by (simp only: RenderErrorPage_source_order d replacements_503 Handler.simps c s k)
qed


lemma replacements_404:
  "replacements
     \<lparr>Code = 404, Message = ''Not Found'', Description = ''Gone.'', ShowDetails = False,
      Host = ''example.com'', OriginalURI = ''{{ host }}'', ForwardedFor = [], RequestID = [],
      NowUnix = 1700000000, L10nEnabled = False, L10nScript = []\<rparr>
   = [(''{{ code }}'', ''404''),
      (''{{ message }}'', ''Not Found''),
      (''{{ description }}'', ''Gone.''),
      (''{{ message | escape }}'', ''Not Found''),
      (''{{ description | escape }}'', ''Gone.''),
      (''{{ host }}'', ''example.com''),
      (''{{ original_uri }}'', ''{{ host }}''),
      (''{{ forwarded_for }}'', []),
      (''{{ request_id }}'', []),
      (''{{ nowUnix }}'', ''1700000000''),
      (''{{ l10nScript }}'', [])]"
  by (simp add: replacements_def Itoa_def natDec.simps digitChar_def htmlEscape_chars escapeChar_def)

lemma keeps_404:
  "fillDefaults now
     \<lparr>Code = 404, Message = ''Not Found'', Description = ''Gone.'', ShowDetails = False,
      Host = ''example.com'', OriginalURI = ''{{ host }}'', ForwardedFor = [], RequestID = [],
      NowUnix = 1700000000, L10nEnabled = False, L10nScript = []\<rparr>
   = \<lparr>Code = 404, Message = ''Not Found'', Description = ''Gone.'', ShowDetails = False,
      Host = ''example.com'', OriginalURI = ''{{ host }}'', ForwardedFor = [], RequestID = [],
      NowUnix = 1700000000, L10nEnabled = False, L10nScript = []\<rparr>"
  by (simp add: fillDefaults_def)

lemma conditionals_404:
  "processConditionals ''<p>{{ original_uri }}</p>'' data = ''<p>{{ original_uri }}</p>''"
  by (rule processConditionals_no_comment) (simp add: Contains_def)

lemma substitution_404_source_order:
  "foldl (\<lambda>result (placeholder, value). ReplaceAll result placeholder value)
      ''<p>{{ original_uri }}</p>''
      [(''{{ code }}'', ''404''),
      (''{{ message }}'', ''Not Found''),
      (''{{ description }}'', ''Gone.''),
      (''{{ message | escape }}'', ''Not Found''),
      (''{{ description | escape }}'', ''Gone.''),
      (''{{ host }}'', ''example.com''),
      (''{{ original_uri }}'', ''{{ host }}''),
      (''{{ forwarded_for }}'', []),
      (''{{ request_id }}'', []),
      (''{{ nowUnix }}'', ''1700000000''),
      (''{{ l10nScript }}'', [])] = ''<p>{{ host }}</p>''"
  by (simp add: ReplaceAll_unfold)

lemma substitution_404_reverse_order:
  "foldl (\<lambda>result (placeholder, value). ReplaceAll result placeholder value)
      ''<p>{{ original_uri }}</p>''
      (rev [(''{{ code }}'', ''404''),
      (''{{ message }}'', ''Not Found''),
      (''{{ description }}'', ''Gone.''),
      (''{{ message | escape }}'', ''Not Found''),
      (''{{ description | escape }}'', ''Gone.''),
      (''{{ host }}'', ''example.com''),
      (''{{ original_uri }}'', ''{{ host }}''),
      (''{{ forwarded_for }}'', []),
      (''{{ request_id }}'', []),
      (''{{ nowUnix }}'', ''1700000000''),
      (''{{ l10nScript }}'', [])]) = ''<p>example.com</p>''"
  by (simp add: ReplaceAll_unfold)

lemma cleanup_404:
  "cleanupEmptyRows ''<p>{{ host }}</p>'' = ''<p>{{ host }}</p>''"
  "cleanupEmptyRows ''<p>example.com</p>'' = ''<p>example.com</p>''"
  by (rule cleanupEmptyRows_plain [where x = "''<!--''"]; simp add: Contains_def)+

text \<open>
  C8. \<open>renderTemplate\<close> ranges over a Go map, whose iteration order is not fixed, and
  each step rewrites the result of the previous one. A value that contains the text of
  another placeholder is therefore substituted again or not, depending on the order.
  For one handler and one data record with a timestamp other than 0, the iteration in
  the order of the map literal and the iteration in the reverse order return different
  pages.
\<close>

theorem RenderErrorPage_depends_on_map_order:
  "mapOrder [0..<11] \<and> mapOrder (rev [0..<11]) \<and>
   RenderErrorPage \<lparr>template' = ''<p>{{ original_uri }}</p>'', version = ''dev''\<rparr> [0..<11] 0
     \<lparr>Code = 404, Message = ''Not Found'', Description = ''Gone.'', ShowDetails = False,
      Host = ''example.com'', OriginalURI = ''{{ host }}'', ForwardedFor = [], RequestID = [],
      NowUnix = 1700000000, L10nEnabled = False, L10nScript = []\<rparr>
     = Inr ''<p>{{ host }}</p>'' \<and>
   RenderErrorPage \<lparr>template' = ''<p>{{ original_uri }}</p>'', version = ''dev''\<rparr> (rev [0..<11]) 0
     \<lparr>Code = 404, Message = ''Not Found'', Description = ''Gone.'', ShowDetails = False,
      Host = ''example.com'', OriginalURI = ''{{ host }}'', ForwardedFor = [], RequestID = [],
      NowUnix = 1700000000, L10nEnabled = False, L10nScript = []\<rparr>
     = Inr ''<p>example.com</p>''"
  by (simp only: mapOrder_source mapOrder_reverse RenderErrorPage_source_order
      RenderErrorPage_reverse_order keeps_404 replacements_404 Handler.simps conditionals_404
      substitution_404_source_order substitution_404_reverse_order cleanup_404 simp_thms)

section \<open>The auto-refresh block in a rendered page\<close>







subsection \<open>A refresh block with a conditional inside\<close>











subsection \<open>A refresh block closed by the first end marker\<close>







section \<open>The body events of one response\<close>

text \<open>
  C1, as stated, fails where the host refuses the replacement: the handler still
  returns \<open>ActionContinue\<close> on the final chunk, and the upstream body stays in place
  although the page was rendered.
\<close>

theorem replace_failure_counterexample:
  "RenderErrorPage \<lparr>template' = ''<h1>{{ code }}</h1>'', version = ''dev''\<rparr> [0..<11] 1700000000
     (buildTemplateData \<lparr>Theme = ''cats'', ShowDetails = True\<rparr>
        \<lparr>shouldReplaceBody = True, statusCode = ''503'', host = ''example.com'',
         originalURI = ''/'', forwardedFor = [], requestID = []\<rparr>)
     = Inr ''<h1>503</h1>'' \<and>
   OnHttpResponseBody
     (RenderErrorPage \<lparr>template' = ''<h1>{{ code }}</h1>'', version = ''dev''\<rparr> [0..<11] 1700000000)
     \<lparr>Theme = ''cats'', ShowDetails = True\<rparr>
     \<lparr>shouldReplaceBody = True, statusCode = ''503'', host = ''example.com'',
      originalURI = ''/'', forwardedFor = [], requestID = []\<rparr>
     \<lparr>responseBody = ''upstream error'', replaceFails = True\<rparr> 14 True
     = (ActionContinue, \<lparr>responseBody = ''upstream error'', replaceFails = True\<rparr>)"
  by (simp add: OnHttpResponseBody_final render_503)

text \<open>
  C1, amended. For an intercepted response (\<open>shouldReplaceBody\<close> set), the handler
  answers every chunk that is not the end of the stream with \<open>ActionPause\<close> and every
  end-of-stream chunk with \<open>ActionContinue\<close>. Over a stream of chunks that ends with its
  only end-of-stream chunk this is a run of pauses and one continue, and afterwards
  the body is the rendered page when rendering and the host's replacement both
  succeeded, and the body as it was when either failed. For a pass-through response
  every chunk is answered with \<open>ActionContinue\<close> and the host state is never changed.
\<close>

theorem response_body_actions:
  "(shouldReplaceBody ctx \<longrightarrow>
      fst (bodyEvents render cfg ctx hs chunks) =
        map (\<lambda>(n, eos). if eos then ActionContinue else ActionPause) chunks
      \<and> bodyEvents render cfg ctx hs (map (\<lambda>n. (n, False)) sizes @ [(lastSize, True)]) =
          (replicate (length sizes) ActionPause @ [ActionContinue],
           case render (buildTemplateData cfg ctx) of
             Inl err \<Rightarrow> hs
           | Inr errorPage \<Rightarrow>
               if replaceFails hs then hs else hs\<lparr>responseBody := errorPage\<rparr>))
   \<and> (\<not> shouldReplaceBody ctx \<longrightarrow>
        bodyEvents render cfg ctx hs chunks = (replicate (length chunks) ActionContinue, hs))"
  using bodyEvents_actions bodyEvents_stream bodyEvents_passthrough by blast

theorem response_body_actions_witness:
  "bodyEvents
     (RenderErrorPage \<lparr>template' = ''<h1>{{ code }}</h1>'', version = ''dev''\<rparr> [0..<11] 1700000000)
     \<lparr>Theme = ''cats'', ShowDetails = True\<rparr>
     \<lparr>shouldReplaceBody = True, statusCode = ''503'', host = ''example.com'',
      originalURI = ''/'', forwardedFor = [], requestID = []\<rparr>
     \<lparr>responseBody = ''upstream error'', replaceFails = False\<rparr>
     [(4, False), (4, False), (0, True)]
     = ([ActionPause, ActionPause, ActionContinue],
        \<lparr>responseBody = ''<h1>503</h1>'', replaceFails = False\<rparr>) \<and>
   bodyEvents
     (RenderErrorPage \<lparr>template' = ''<h1>{{ code }}</h1>'', version = ''dev''\<rparr> [0..<11] 1700000000)
     \<lparr>Theme = ''cats'', ShowDetails = True\<rparr>
     \<lparr>shouldReplaceBody = False, statusCode = [], host = ''example.com'',
      originalURI = ''/'', forwardedFor = [], requestID = []\<rparr>
     \<lparr>responseBody = ''hello'', replaceFails = False\<rparr>
     [(4, False), (1, True)]
     = ([ActionContinue, ActionContinue], \<lparr>responseBody = ''hello'', replaceFails = False\<rparr>)"
  using
    response_body_actions [of
      "\<lparr>shouldReplaceBody = True, statusCode = ''503'', host = ''example.com'',
        originalURI = ''/'', forwardedFor = [], requestID = []\<rparr>"
      "RenderErrorPage \<lparr>template' = ''<h1>{{ code }}</h1>'', version = ''dev''\<rparr> [0..<11] 1700000000"
      "\<lparr>Theme = ''cats'', ShowDetails = True\<rparr>"
      "\<lparr>responseBody = ''upstream error'', replaceFails = False\<rparr>"
      "[]" "[4, 4]" 0]
    response_body_actions [of
      "\<lparr>shouldReplaceBody = False, statusCode = [], host = ''example.com'',
        originalURI = ''/'', forwardedFor = [], requestID = []\<rparr>"
      "RenderErrorPage \<lparr>template' = ''<h1>{{ code }}</h1>'', version = ''dev''\<rparr> [0..<11] 1700000000"
      "\<lparr>Theme = ''cats'', ShowDetails = True\<rparr>"
      "\<lparr>responseBody = ''hello'', replaceFails = False\<rparr>"
      "[(4, False), (1, True)]" "[]" 0]
  by (simp add: render_503 del: bodyEvents.simps)

end
